theory Spec2Isabelle
  imports Main "HOL-Library.Sublist"
begin

section \<open>The \<open>prepare\<close> command of corepack\<close>

text \<open>
  A shallow embedding of \<^verbatim>\<open>src/sources/commands/Prepare.ts\<close>. The command talks to
  collaborators that live outside the file (the engine, \<^verbatim>\<open>specUtils\<close>,
  \<^verbatim>\<open>folderUtils\<close>, \<^verbatim>\<open>tar\<close>, \<^verbatim>\<open>path\<close>, the standard output stream). They are
  parameters of the model: each one is a function on an arbitrary world \<open>'w\<close> that may
  change the world and may throw. Every call the command makes is recorded, with the
  result it returned, in a list of events, so that statements such as
  \<open>the engine is never called\<close> are statements about that list.
\<close>

subsection \<open>Data model\<close>

type_synonym path = string

text \<open>\<^verbatim>\<open>Descriptor\<close> and \<^verbatim>\<open>Locator\<close> of \<^verbatim>\<open>../types\<close>, with the fields the command reads.\<close>

record Descriptor =
  name :: string
  range :: string

record Locator =
  name :: string
  reference :: string

text \<open>What \<^verbatim>\<open>ensurePackageManager\<close> resolves to; the command reads \<^verbatim>\<open>location\<close> only.\<close>

record InstallSpec =
  location :: path

text \<open>The tagged result of \<^verbatim>\<open>specUtils.loadSpec\<close> (\<^verbatim>\<open>lookup.type\<close>, \<^verbatim>\<open>lookup.spec\<close>).\<close>

datatype LoadSpecResult = NoProject | NoSpec | Found Descriptor

text \<open>
  Whatever is thrown: the command's own \<^verbatim>\<open>UsageError\<close>s, with their message, and any
  other exception a collaborator raises.
\<close>

datatype error = UsageError string | Thrown string

text \<open>
  \<^verbatim>\<open>output?: string | boolean\<close>: the option is absent, given as a flag (\<^verbatim>\<open>-o\<close>,
  \<^verbatim>\<open>--no-output\<close>) or given with a value (\<^verbatim>\<open>--output=yarn.tgz\<close>).
\<close>

datatype "output" = OutputUndefined | OutputBoolean bool | OutputString string

text \<open>The fields of \<^verbatim>\<open>PrepareCommand\<close>, and \<^verbatim>\<open>context.cwd\<close>.\<close>

record PrepareCommand =
  spec :: "string option"
  activate :: bool
  all :: bool
  "output" :: "output"
  json :: bool
  cwd :: path

text \<open>
  An element of \<^verbatim>\<open>specs\<close>: \<^verbatim>\<open>undefined\<close> (no argument), the string typed on the command
  line, or a \<^verbatim>\<open>Descriptor\<close> object returned by \<^verbatim>\<open>getDefaultDescriptors\<close>.
\<close>

datatype request = Undefined | RequestString string | RequestDescriptor Descriptor

text \<open>The options object and the entry list handed to \<^verbatim>\<open>tar.c\<close>.\<close>

record TarOptions =
  gzip :: bool
  tar_cwd :: path
  "file" :: path

text \<open>A call with the result it returned (\<open>Inl\<close>: it threw).\<close>

datatype event =
    GetDefaultDescriptors "error + Descriptor list"
  | LoadSpec path "error + LoadSpecResult"
  | ResolveDescriptor Descriptor "error + Locator option"
  | GetInstallFolder "error + path"
  | EnsurePackageManager Locator "error + InstallSpec"
  | ActivatePackageManager Locator "error + unit"
  | TarCreate TarOptions "path list" "error + unit"
  | StdoutWrite string

text \<open>
  The collaborators. \<^verbatim>\<open>parseSpec\<close>, \<^verbatim>\<open>path.join\<close>, \<^verbatim>\<open>path.relative\<close> and
  \<^verbatim>\<open>JSON.stringify\<close> are synchronous and compute on their arguments only.
\<close>

record 'w collaborators =
  getDefaultDescriptors :: "'w \<Rightarrow> (error + Descriptor list) \<times> 'w"
  resolveDescriptor :: "Descriptor \<Rightarrow> 'w \<Rightarrow> (error + Locator option) \<times> 'w"
  ensurePackageManager :: "Locator \<Rightarrow> 'w \<Rightarrow> (error + InstallSpec) \<times> 'w"
  activatePackageManager :: "Locator \<Rightarrow> 'w \<Rightarrow> (error + unit) \<times> 'w"
  loadSpec :: "path \<Rightarrow> 'w \<Rightarrow> (error + LoadSpecResult) \<times> 'w"
  parseSpec :: "string \<Rightarrow> string \<Rightarrow> error + Descriptor"
  getInstallFolder :: "'w \<Rightarrow> (error + path) \<times> 'w"
  tar_c :: "TarOptions \<Rightarrow> path list \<Rightarrow> 'w \<Rightarrow> (error + unit) \<times> 'w"
  path_join :: "path \<Rightarrow> string \<Rightarrow> path"
  path_relative :: "path \<Rightarrow> path \<Rightarrow> path"
  JSON_stringify :: "string \<Rightarrow> string"

subsection \<open>Sequencing\<close>

text \<open>
  A computation takes the world and gives a result or an exception, the new world and
  the events it produced. \<open>bind\<close> is \<^verbatim>\<open>await\<close> followed by the rest of the function:
  an exception skips the rest.
\<close>

type_synonym ('a, 'w) io = "'w \<Rightarrow> (error + 'a) \<times> 'w \<times> event list"

definition return :: "'a \<Rightarrow> ('a, 'w) io" where
  "return a w = (Inr a, w, [])"

definition throw :: "error \<Rightarrow> ('a, 'w) io" where
  "throw e w = (Inl e, w, [])"

definition bind :: "('a, 'w) io \<Rightarrow> ('a \<Rightarrow> ('b, 'w) io) \<Rightarrow> ('b, 'w) io" where
  "bind m f w =
     (case m w of
        (Inl e, w', evs) \<Rightarrow> (Inl e, w', evs)
      | (Inr a, w', evs) \<Rightarrow> (case f a w' of (r, w'', evs') \<Rightarrow> (r, w'', evs @ evs')))"

definition call :: "((error + 'a) \<Rightarrow> event) \<Rightarrow> ('w \<Rightarrow> (error + 'a) \<times> 'w) \<Rightarrow> ('a, 'w) io" where
  "call ev op w = (case op w of (r, w') \<Rightarrow> (r, w', [ev r]))"

definition lift :: "error + 'a \<Rightarrow> ('a, 'w) io" where
  "lift r w = (r, w, [])"

definition stdout_write :: "string \<Rightarrow> (unit, 'w) io" where
  "stdout_write s w = (Inr (), w, [StdoutWrite s])"

subsection \<open>\<^verbatim>\<open>PrepareCommand.execute\<close>\<close>

text \<open>JavaScript's \<^verbatim>\<open>!this.output\<close>: \<^verbatim>\<open>undefined\<close>, \<^verbatim>\<open>false\<close> and the empty string are falsy.\<close>

fun falsy :: "output \<Rightarrow> bool" where
  "falsy OutputUndefined = True"
| "falsy (OutputBoolean b) = (\<not> b)"
| "falsy (OutputString s) = (s = [])"

definition apostrophe :: string where
  "apostrophe = [CHR 0x27]"

definition newline :: string where
  "newline = [CHR 0x0A]"

definition all_with_spec_message :: string where
  "all_with_spec_message =
     ''The --all option cannot be used along with an explicit package manager specification''"

definition no_project_message :: string where
  "no_project_message =
     ''Couldn'' @ apostrophe @ ''t find a project in the local directory - please explicit the package manager to pack, or run this command from a valid project''"

definition no_spec_message :: string where
  "no_spec_message =
     ''The local project doesn'' @ apostrophe @ ''t feature a '' @ apostrophe @ ''packageManager'' @ apostrophe
       @ '' field - please explicit the package manager to pack, or update the manifest to reference it''"

definition resolve_failed_message :: "Descriptor \<Rightarrow> string" where
  "resolve_failed_message d =
     ''Failed to successfully resolve '' @ apostrophe @ range d @ apostrophe
       @ '' to a valid '' @ Descriptor.name d @ '' release''"

text \<open>Lines 60 to 77: the descriptor of one request.\<close>

definition getSpec :: "'w collaborators \<Rightarrow> PrepareCommand \<Rightarrow> request \<Rightarrow> (Descriptor, 'w) io" where
  "getSpec c cmd request =
     (case request of
        Undefined \<Rightarrow>
          bind (call (LoadSpec (cwd cmd)) (loadSpec c (cwd cmd))) (\<lambda>lookup.
            case lookup of
              NoProject \<Rightarrow> throw (UsageError no_project_message)
            | NoSpec \<Rightarrow> throw (UsageError no_spec_message)
            | Found d \<Rightarrow> return d)
      | RequestString s \<Rightarrow> lift (parseSpec c s ''CLI arguments'')
      | RequestDescriptor d \<Rightarrow> return d)"

text \<open>Lines 92 to 96: where the archive goes.\<close>

definition fileNameOf :: "'w collaborators \<Rightarrow> PrepareCommand \<Rightarrow> request \<Rightarrow> Locator \<Rightarrow> path" where
  "fileNameOf c cmd request resolved =
     (case output cmd of
        OutputString s \<Rightarrow> s
      | _ \<Rightarrow>
        if request \<noteq> Undefined
        then path_join c (cwd cmd)
               (''corepack-'' @ Locator.name resolved @ ''-'' @ reference resolved @ ''.tgz'')
        else path_join c (cwd cmd) (''corepack-'' @ Locator.name resolved @ ''.tgz''))"

text \<open>Lines 89 to 104: the export that follows installation and activation.\<close>

definition pack ::
  "'w collaborators \<Rightarrow> PrepareCommand \<Rightarrow> request \<Rightarrow> Locator \<Rightarrow> path \<Rightarrow> InstallSpec \<Rightarrow> (unit, 'w) io"
where
  "pack c cmd request resolved baseInstallFolder installSpec =
     (if falsy (output cmd) then return ()
      else
        let fileName = fileNameOf c cmd request resolved;
            opts = \<lparr>gzip = True, tar_cwd = baseInstallFolder, file = fileName\<rparr>;
            entries = [path_relative c baseInstallFolder (location installSpec)]
        in bind (call (TarCreate opts entries) (tar_c c opts entries)) (\<lambda>_.
             if json cmd then stdout_write (JSON_stringify c fileName @ newline)
             else stdout_write (''Packed '' @ fileName @ newline)))"

text \<open>Lines 79 to 104: resolve, install, activate and export one descriptor.\<close>

definition prepareSpec ::
  "'w collaborators \<Rightarrow> PrepareCommand \<Rightarrow> request \<Rightarrow> Descriptor \<Rightarrow> (unit, 'w) io"
where
  "prepareSpec c cmd request d =
     bind (call (ResolveDescriptor d) (resolveDescriptor c d)) (\<lambda>resolved'.
       case resolved' of
         None \<Rightarrow> throw (UsageError (resolve_failed_message d))
       | Some resolved \<Rightarrow>
           bind (call GetInstallFolder (getInstallFolder c)) (\<lambda>baseInstallFolder.
           bind (call (EnsurePackageManager resolved) (ensurePackageManager c resolved)) (\<lambda>installSpec.
           bind (if activate cmd
                 then call (ActivatePackageManager resolved) (activatePackageManager c resolved)
                 else return ()) (\<lambda>_.
           pack c cmd request resolved baseInstallFolder installSpec))))"

text \<open>The body of the \<^verbatim>\<open>for\<close> loop, and the loop.\<close>

definition prepareOne :: "'w collaborators \<Rightarrow> PrepareCommand \<Rightarrow> request \<Rightarrow> (unit, 'w) io" where
  "prepareOne c cmd request = bind (getSpec c cmd request) (prepareSpec c cmd request)"

fun prepareLoop :: "'w collaborators \<Rightarrow> PrepareCommand \<Rightarrow> request list \<Rightarrow> (unit, 'w) io" where
  "prepareLoop c cmd [] = return ()"
| "prepareLoop c cmd (request # rest) =
     bind (prepareOne c cmd request) (\<lambda>_. prepareLoop c cmd rest)"

text \<open>Lines 53 to 55: \<^verbatim>\<open>specs\<close>.\<close>

definition requestOfSpec :: "string option \<Rightarrow> request" where
  "requestOfSpec s = (case s of None \<Rightarrow> Undefined | Some raw \<Rightarrow> RequestString raw)"

definition getSpecs :: "'w collaborators \<Rightarrow> PrepareCommand \<Rightarrow> (request list, 'w) io" where
  "getSpecs c cmd =
     (if all cmd
      then bind (call GetDefaultDescriptors (getDefaultDescriptors c))
             (\<lambda>ds. return (map RequestDescriptor ds))
      else return [requestOfSpec (spec cmd)])"

definition execute :: "'w collaborators \<Rightarrow> PrepareCommand \<Rightarrow> (unit, 'w) io" where
  "execute c cmd =
     (if all cmd \<and> spec cmd \<noteq> None then throw (UsageError all_with_spec_message)
      else bind (getSpecs c cmd) (prepareLoop c cmd))"

text \<open>
  Modelled from the spec: the top level that turns the outcome of a command into the
  exit code of the process is not in the sources at hand; section 7 says that every
  error kind is surfaced with exit code 1.
\<close>

definition exitCode :: "error + unit \<Rightarrow> nat" where
  "exitCode r = (case r of Inl _ \<Rightarrow> 1 | Inr _ \<Rightarrow> 0)"

section \<open>The collaborators, as the specification describes them\<close>

text \<open>
  The engine, the manifest lookup, hydration and the dispatcher are not among the sources
  at hand. The definitions of this section follow the specification; they give the
  command a concrete world to run in.
\<close>

subsection \<open>Strings and paths\<close>

fun splitOn :: "char \<Rightarrow> string \<Rightarrow> string list" where
  "splitOn sep [] = [[]]"
| "splitOn sep (ch # cs) =
     (if ch = sep then [] # splitOn sep cs
      else (case splitOn sep cs of [] \<Rightarrow> [[ch]] | x # xs \<Rightarrow> (ch # x) # xs))"

fun joinWith :: "string \<Rightarrow> string list \<Rightarrow> string" where
  "joinWith sep [] = []"
| "joinWith sep [x] = x"
| "joinWith sep (x # y # ys) = x @ sep @ joinWith sep (y # ys)"

definition segments :: "path \<Rightarrow> string list" where
  "segments p = filter (\<lambda>s. s \<noteq> []) (splitOn (CHR ''/'') p)"

fun stripCommon :: "'a list \<Rightarrow> 'a list \<Rightarrow> 'a list \<times> 'a list" where
  "stripCommon (x # xs) (y # ys) = (if x = y then stripCommon xs ys else (x # xs, y # ys))"
| "stripCommon xs ys = (xs, ys)"

text \<open>
  Node's \<^verbatim>\<open>path.join\<close> and \<^verbatim>\<open>path.relative\<close> on POSIX paths that are absolute
  and already normalised (no \<^verbatim>\<open>.\<close>, \<^verbatim>\<open>..\<close> or doubled separator in the arguments).
\<close>

definition posix_join :: "path \<Rightarrow> string \<Rightarrow> path" where
  "posix_join a b = a @ ''/'' @ b"

definition posix_relative :: "path \<Rightarrow> path \<Rightarrow> path" where
  "posix_relative from to =
     (case stripCommon (segments from) (segments to) of
        (up, down) \<Rightarrow> joinWith ''/'' (replicate (length up) ''..'' @ down))"

text \<open>\<^verbatim>\<open>JSON.stringify\<close> of a string of printable ASCII: quotes, with quote and backslash escaped.\<close>

definition json_string :: "string \<Rightarrow> string" where
  "json_string s =
     [CHR 0x22] @ concat (map (\<lambda>ch. if ch = CHR 0x22 \<or> ch = CHR 0x5C then [CHR 0x5C, ch] else [ch]) s)
       @ [CHR 0x22]"

subsection \<open>The world\<close>

text \<open>A directory tree: the files below a directory, by relative path.\<close>

type_synonym tree = "(path \<times> string) list"

text \<open>
  Modelled from the spec: the persisted state of sections 3 and 6 (install trees below
  the cache root, the activation mapping, the resolution cache), the embedded
  default-version table, the project manifests, the registry with the network toggle,
  the archives on disk, and what running the entry point of an install tree does
  (exit code and output; \<open>None\<close> when it cannot be spawned).
\<close>

record world =
  cacheRoot :: path
  cache :: tree
  activation :: "string \<rightharpoonup> Locator"
  resolutions :: "string \<times> string \<rightharpoonup> Locator \<times> bool"
  defaultVersions :: "string \<Rightarrow> string"
  manifests :: "path \<Rightarrow> LoadSpecResult"
  networkEnabled :: bool
  registry :: "Descriptor \<Rightarrow> Locator option"
  releases :: "Locator \<Rightarrow> (tree \<times> bool) option"
  networkAccesses :: nat
  disk :: "path \<rightharpoonup> tree"
  programs :: "tree \<Rightarrow> string list \<Rightarrow> (nat \<times> string) option"

text \<open>Modelled from the spec: the closed set of manager names (section 3).\<close>

definition supportedNames :: "string list" where
  "supportedNames = [''npm'', ''yarn'', ''pnpm'']"

text \<open>
  Modelled from the spec: an exact version (section 4.2, step 1), read as
  \<^verbatim>\<open>MAJOR.MINOR.PATCH\<close> with an optional pre-release or build suffix.
\<close>

definition digits :: "string \<Rightarrow> bool" where
  "digits s = (s \<noteq> [] \<and> list_all (\<lambda>ch. ch \<in> set ''0123456789'') s)"

definition versionChars :: string where
  "versionChars = ''0123456789abcdefghijklmnopqrstuvwxyzABCDEFGHIJKLMNOPQRSTUVWXYZ.-+''"

definition exactVersion :: "string \<Rightarrow> bool" where
  "exactVersion s =
     (list_all (\<lambda>ch. ch \<in> set versionChars) s
      \<and> (case splitOn (CHR ''.'') (takeWhile (\<lambda>ch. ch \<noteq> CHR ''-'' \<and> ch \<noteq> CHR ''+'') s) of
           [a, b, c] \<Rightarrow> digits a \<and> digits b \<and> digits c
         | _ \<Rightarrow> False))"

subsection \<open>Spec model and manifest lookup\<close>

text \<open>
  Modelled from the spec: \<^verbatim>\<open>parseSpec\<close> (section 4.1) splits \<^verbatim>\<open>name@range[+integrity]\<close>
  and fails when the separator is missing or the name is not in the closed set; a range
  is never empty (section 3).
\<close>

definition sm_parseSpec :: "string \<Rightarrow> string \<Rightarrow> error + Descriptor" where
  "sm_parseSpec raw source =
     (case dropWhile (\<lambda>ch. ch \<noteq> CHR ''@'') raw of
        [] \<Rightarrow> Inl (Thrown (''Malformed specification in '' @ source))
      | _ # rest \<Rightarrow>
          let n = takeWhile (\<lambda>ch. ch \<noteq> CHR ''@'') raw;
              r = takeWhile (\<lambda>ch. ch \<noteq> CHR ''+'') rest
          in if n \<in> set supportedNames \<and> r \<noteq> []
             then Inr \<lparr>Descriptor.name = n, range = r\<rparr>
             else Inl (Thrown (''Malformed specification in '' @ source)))"

text \<open>
  Modelled from the spec: \<^verbatim>\<open>loadSpec\<close> (section 4.1); the walk up the directories is
  the table \<open>manifests\<close>, from the starting directory to the outcome of the walk.
\<close>

definition sm_loadSpec :: "path \<Rightarrow> world \<Rightarrow> (error + LoadSpecResult) \<times> world" where
  "sm_loadSpec dir w = (Inr (manifests w dir), w)"

subsection \<open>Registry resolver\<close>

text \<open>Modelled from the spec: step 3 and 4 of \<^verbatim>\<open>resolveDescriptor\<close> (section 4.2).\<close>

definition queryRegistry :: "Descriptor \<Rightarrow> world \<Rightarrow> (error + Locator option) \<times> world" where
  "queryRegistry d w =
     (if \<not> networkEnabled w then (Inr None, w)
      else
        case registry w d of
          None \<Rightarrow> (Inr None, w\<lparr>networkAccesses := networkAccesses w + 1\<rparr>)
        | Some l \<Rightarrow>
            (Inr (Some l),
             w\<lparr>networkAccesses := networkAccesses w + 1,
               resolutions := (resolutions w)((Descriptor.name d, range d) \<mapsto> (l, True))\<rparr>))"

text \<open>
  Modelled from the spec: \<^verbatim>\<open>resolveDescriptor\<close> (section 4.2). An entry of the
  resolution cache is a locator with the flag that it is still fresh; expired entries
  are not in the table.
\<close>

definition sm_resolveDescriptor :: "Descriptor \<Rightarrow> world \<Rightarrow> (error + Locator option) \<times> world" where
  "sm_resolveDescriptor d w =
     (if exactVersion (range d)
      then (Inr (Some \<lparr>Locator.name = Descriptor.name d, reference = range d\<rparr>), w)
      else
        case resolutions w (Descriptor.name d, range d) of
          Some (l, fresh) \<Rightarrow>
            if \<not> networkEnabled w \<or> fresh then (Inr (Some l), w) else queryRegistry d w
        | None \<Rightarrow> queryRegistry d w)"

subsection \<open>Install cache\<close>

text \<open>
  Modelled from the spec: the layout \<^verbatim>\<open><cacheRoot>/<name>/<reference>/\<close> of the install
  cache and the completion marker of an entry (sections 4.3 and 6). Paths in \<open>cache\<close> are
  relative to the cache root.
\<close>

definition completionMarker :: string where
  "completionMarker = ''.ready''"

definition installDir :: "Locator \<Rightarrow> path" where
  "installDir l = Locator.name l @ ''/'' @ reference l"

definition below :: "path \<Rightarrow> path \<Rightarrow> bool" where
  "below dir p = (p = dir \<or> prefix (dir @ ''/'') p)"

definition installed :: "world \<Rightarrow> Locator \<Rightarrow> bool" where
  "installed w l = (map_of (cache w) (installDir l @ ''/'' @ completionMarker) \<noteq> None)"

text \<open>The files of one install, by their path below the cache root.\<close>

definition installTree :: "world \<Rightarrow> Locator \<Rightarrow> tree" where
  "installTree w l = filter (\<lambda>(p, _). below (installDir l) p) (cache w)"

definition extractInto :: "path \<Rightarrow> tree \<Rightarrow> tree \<Rightarrow> tree" where
  "extractInto dir t files =
     map (\<lambda>(p, content). (dir @ ''/'' @ p, content)) t
       @ [(dir @ ''/'' @ completionMarker, [])]
       @ filter (\<lambda>(p, _). \<not> below dir p) files"

text \<open>
  Modelled from the spec: \<^verbatim>\<open>ensurePackageManager\<close> (section 4.3) in one process: the
  fast path, the download, the integrity check that aborts before the cache is touched,
  and the install, which becomes visible in one step. The flag beside a release says
  whether its bytes match the expected integrity value.
\<close>

definition sm_ensurePackageManager :: "Locator \<Rightarrow> world \<Rightarrow> (error + InstallSpec) \<times> world" where
  "sm_ensurePackageManager l w =
     (if installed w l then (Inr \<lparr>location = posix_join (cacheRoot w) (installDir l)\<rparr>, w)
      else if \<not> networkEnabled w
      then (Inl (Thrown ''Network access disabled by the environment''), w)
      else
        case releases w l of
          None \<Rightarrow> (Inl (Thrown ''Release not found''), w\<lparr>networkAccesses := networkAccesses w + 1\<rparr>)
        | Some (t, intact) \<Rightarrow>
            if \<not> intact
            then (Inl (Thrown ''Integrity check failed''), w\<lparr>networkAccesses := networkAccesses w + 1\<rparr>)
            else (Inr \<lparr>location = posix_join (cacheRoot w) (installDir l)\<rparr>,
                  w\<lparr>networkAccesses := networkAccesses w + 1,
                    cache := extractInto (installDir l) t (cache w)\<rparr>))"

text \<open>Modelled from the spec: \<^verbatim>\<open>folderUtils.getInstallFolder\<close> answers the cache root (section 4.3, layout).\<close>

definition sm_getInstallFolder :: "world \<Rightarrow> (error + path) \<times> world" where
  "sm_getInstallFolder w = (Inr (cacheRoot w), w)"

subsection \<open>Activation state\<close>

text \<open>Modelled from the spec: \<^verbatim>\<open>activatePackageManager\<close> overwrites the entry of one name (section 4.4).\<close>

definition sm_activatePackageManager :: "Locator \<Rightarrow> world \<Rightarrow> (error + unit) \<times> world" where
  "sm_activatePackageManager l w =
     (Inr (), w\<lparr>activation := (activation w)(Locator.name l \<mapsto> l)\<rparr>)"

text \<open>
  Modelled from the spec: \<^verbatim>\<open>getDefaultDescriptors\<close> (section 4.4): one descriptor per
  supported name, from the activation state if it has the name, else from the embedded table.
\<close>

definition defaultDescriptor :: "world \<Rightarrow> string \<Rightarrow> Descriptor" where
  "defaultDescriptor w n =
     \<lparr>Descriptor.name = n,
      range = (case activation w n of Some l \<Rightarrow> reference l | None \<Rightarrow> defaultVersions w n)\<rparr>"

definition sm_getDefaultDescriptors :: "world \<Rightarrow> (error + Descriptor list) \<times> world" where
  "sm_getDefaultDescriptors w = (Inr (map (defaultDescriptor w) supportedNames), w)"

subsection \<open>Archive export and import\<close>

text \<open>
  The archive codec behind \<^verbatim>\<open>tar.c\<close>: the files below each entry, read from the
  directory \<^verbatim>\<open>cwd\<close> and stored under their path relative to it. The world has one
  directory tree, the cache root.
\<close>

definition sm_tar_c :: "TarOptions \<Rightarrow> path list \<Rightarrow> world \<Rightarrow> (error + unit) \<times> world" where
  "sm_tar_c opts entries w =
     (if tar_cwd opts \<noteq> cacheRoot w then (Inl (Thrown ''ENOENT''), w)
      else (Inr (),
            w\<lparr>disk := (disk w)(file opts \<mapsto>
                 filter (\<lambda>(p, _). list_ex (\<lambda>e. below e p) entries) (cache w))\<rparr>))"

text \<open>
  Modelled from the spec: import (section 4.6): extract the archive under the cache root,
  read the name and the reference off its layout, write the completion marker, report.
\<close>

definition hydrate :: "path \<Rightarrow> (unit, world) io" where
  "hydrate archivePath w =
     (case disk w archivePath of
        None \<Rightarrow> (Inl (Thrown ''ENOENT''), w, [])
      | Some archive \<Rightarrow>
          (case archive of
             [] \<Rightarrow> (Inl (Thrown ''Empty archive''), w, [])
           | (p, _) # _ \<Rightarrow>
               (case segments p of
                  n # v # _ \<Rightarrow>
                    let marker = n @ ''/'' @ v @ ''/'' @ completionMarker;
                        extracted = (if map_of archive marker \<noteq> None then archive
                                     else archive @ [(marker, [])]);
                        kept = filter (\<lambda>(q, _). q \<notin> set (map fst extracted)) (cache w)
                    in (Inr (), w\<lparr>cache := extracted @ kept\<rparr>,
                        [StdoutWrite (''Hydrated '' @ n @ ''@'' @ v @ newline)])
                | _ \<Rightarrow> (Inl (Thrown ''Unexpected archive layout''), w, []))))"

subsection \<open>Dispatcher\<close>

text \<open>
  Modelled from the spec: the allow-list of transparent subcommands (section 4.5); the
  scenario of section 8 runs \<^verbatim>\<open>dlx\<close> under another manager.
\<close>

definition transparentCommands :: "string list" where
  "transparentCommands = [''dlx'']"

text \<open>
  Modelled from the spec: step 1 of the dispatcher: the explicit descriptor, else the one
  of the manifest lookup, else the activation state, else the embedded default.
\<close>

definition effectiveDescriptor :: "Descriptor option \<Rightarrow> LoadSpecResult \<Rightarrow> world \<Rightarrow> string \<Rightarrow> Descriptor" where
  "effectiveDescriptor explicit lookup w binaryName =
     (case explicit of
        Some d \<Rightarrow> d
      | None \<Rightarrow> (case lookup of Found d \<Rightarrow> d | _ \<Rightarrow> defaultDescriptor w binaryName))"

text \<open>
  Modelled from the spec: the end of the dispatcher (section 4.5, step 4): run the entry
  point of the install, pass its output through, answer its exit code.
\<close>

definition spawn :: "Locator \<Rightarrow> string list \<Rightarrow> (nat, world) io" where
  "spawn l args w =
     (case programs w (installTree w l) args of
        None \<Rightarrow> (Inl (Thrown ''ExecutionError''), w, [])
      | Some (code, out) \<Rightarrow> (Inr code, w, [StdoutWrite out]))"

text \<open>Modelled from the spec: the dispatcher (section 4.5).\<close>

definition dispatch :: "path \<Rightarrow> Descriptor option \<Rightarrow> string \<Rightarrow> string list \<Rightarrow> (nat, world) io" where
  "dispatch dir explicit binaryName args =
     bind (call (LoadSpec dir) (sm_loadSpec dir)) (\<lambda>lookup w.
       let d = effectiveDescriptor explicit lookup w binaryName in
       if Descriptor.name d \<noteq> binaryName \<and> (case args of [] \<Rightarrow> True | a # _ \<Rightarrow> a \<notin> set transparentCommands)
       then throw (Thrown ''WrongPackageManagerError'') w
       else
         bind (call (ResolveDescriptor d) (sm_resolveDescriptor d)) (\<lambda>resolved w'.
           case resolved of
             None \<Rightarrow>
               throw (Thrown (if networkEnabled w' then ''ResolutionFailure''
                              else ''Network access disabled by the environment'')) w'
           | Some l \<Rightarrow>
               bind (call (EnsurePackageManager l) (sm_ensurePackageManager l))
                 (\<lambda>_. spawn l args) w') w)"

text \<open>Modelled from the spec: the exit code of a dispatch (section 6): the child's, or 1.\<close>

definition dispatchExitCode :: "error + nat \<Rightarrow> nat" where
  "dispatchExitCode r = (case r of Inl _ \<Rightarrow> 1 | Inr code \<Rightarrow> code)"

subsection \<open>The command in that world\<close>

definition sm :: "world collaborators" where
  "sm = \<lparr>getDefaultDescriptors = sm_getDefaultDescriptors,
         resolveDescriptor = sm_resolveDescriptor,
         ensurePackageManager = sm_ensurePackageManager,
         activatePackageManager = sm_activatePackageManager,
         loadSpec = sm_loadSpec,
         parseSpec = sm_parseSpec,
         getInstallFolder = sm_getInstallFolder,
         tar_c = sm_tar_c,
         path_join = posix_join,
         path_relative = posix_relative,
         JSON_stringify = json_string\<rparr>"

text \<open>
  A machine to run examples on: an empty cache under \<^verbatim>\<open>/home/.corepack\<close>, a registry
  that has yarn 1.22.4 and 2.2.2, npm 6.14.2 and pnpm 4.11.6, each release a single
  script that prints its version, a project in \<^verbatim>\<open>/proj\<close> that asks for yarn 1.22.4, one
  in \<^verbatim>\<open>/app\<close> that asks for yarn 2.2.2, and one in \<^verbatim>\<open>/bare\<close> whose manifest names no
  package manager.
\<close>

definition release :: "string \<Rightarrow> tree" where
  "release v = [(''bin/cli.js'', ''print '' @ v)]"

definition known :: "Locator list" where
  "known = [\<lparr>Locator.name = ''yarn'', reference = ''1.22.4''\<rparr>,
            \<lparr>Locator.name = ''yarn'', reference = ''2.2.2''\<rparr>,
            \<lparr>Locator.name = ''npm'', reference = ''6.14.2''\<rparr>,
            \<lparr>Locator.name = ''pnpm'', reference = ''4.11.6''\<rparr>]"

definition run_script :: "tree \<Rightarrow> string list \<Rightarrow> (nat \<times> string) option" where
  "run_script t args =
     (case filter (\<lambda>(p, content). take 6 content = ''print '') t of
        [] \<Rightarrow> None
      | (p, content) # _ \<Rightarrow> if args = [''--version''] then Some (0, drop 6 content @ newline) else Some (0, []))"

definition machine :: world where
  "machine =
     \<lparr>cacheRoot = ''/home/.corepack'',
      cache = [],
      activation = Map.empty,
      resolutions = Map.empty,
      defaultVersions = (\<lambda>n. if n = ''npm'' then ''6.14.2'' else if n = ''yarn'' then ''1.22.4'' else ''4.11.6''),
      manifests = (\<lambda>dir. if dir = ''/proj'' then Found \<lparr>Descriptor.name = ''yarn'', range = ''1.22.4''\<rparr>
                          else if dir = ''/app'' then Found \<lparr>Descriptor.name = ''yarn'', range = ''2.2.2''\<rparr>
                          else if dir = ''/bare'' then NoSpec else NoProject),
      networkEnabled = True,
      registry = (\<lambda>d. if Descriptor.name d = ''yarn'' \<and> range d = ''^2.0.0''
                       then Some \<lparr>Locator.name = ''yarn'', reference = ''2.2.2''\<rparr> else None),
      releases = (\<lambda>l. if l \<in> set known then Some (release (reference l), True) else None),
      networkAccesses = 0,
      disk = Map.empty,
      programs = run_script\<rparr>"

subsection \<open>Example invocations\<close>

definition prepare_yarn_o :: PrepareCommand where
  "prepare_yarn_o = \<lparr>spec = Some ''yarn@2.2.2'', activate = False, all = False,
     output = OutputBoolean True, json = False, cwd = ''/proj''\<rparr>"

definition prepare_project_o :: PrepareCommand where
  "prepare_project_o = \<lparr>spec = None, activate = False, all = False,
     output = OutputBoolean True, json = False, cwd = ''/proj''\<rparr>"

definition prepare_all_o :: PrepareCommand where
  "prepare_all_o = \<lparr>spec = None, activate = False, all = True,
     output = OutputBoolean True, json = False, cwd = ''/proj''\<rparr>"

definition prepare_all_and_spec :: PrepareCommand where
  "prepare_all_and_spec = \<lparr>spec = Some ''yarn@2.2.2'', activate = True, all = True,
     output = OutputBoolean True, json = False, cwd = ''/proj''\<rparr>"

definition prepare_unknown :: PrepareCommand where
  "prepare_unknown = \<lparr>spec = Some ''yarn@^3'', activate = True, all = False,
     output = OutputBoolean True, json = False, cwd = ''/proj''\<rparr>"

definition prepare_bare :: PrepareCommand where
  "prepare_bare = \<lparr>spec = None, activate = False, all = False,
     output = OutputUndefined, json = False, cwd = ''/bare''\<rparr>"

definition prepare_activate :: PrepareCommand where
  "prepare_activate = \<lparr>spec = Some ''yarn@2.2.2'', activate = True, all = False,
     output = OutputUndefined, json = False, cwd = ''/elsewhere''\<rparr>"

definition prepare_named :: PrepareCommand where
  "prepare_named = \<lparr>spec = Some ''yarn@2.2.2'', activate = False, all = False,
     output = OutputString ''yarn.tgz'', json = True, cwd = ''/proj''\<rparr>"

text \<open>A machine whose activation state pins a yarn release that the registry does not have.\<close>

definition stale_machine :: world where
  "stale_machine =
     machine\<lparr>activation := [''yarn'' \<mapsto> \<lparr>Locator.name = ''yarn'', reference = ''9.9.9''\<rparr>]\<rparr>"

text \<open>
  The machine after \<^verbatim>\<open>prepare yarn@2.2.2 -o\<close>; the same disk with a new cache root (no
  install, no activation state, no resolution cache) and the network disabled; and that
  machine after the archive has been hydrated.
\<close>

definition exported :: world where
  "exported = fst (snd (execute sm prepare_yarn_o machine))"

definition fresh :: world where
  "fresh = exported\<lparr>cacheRoot := ''/fresh'', cache := [], activation := Map.empty,
     resolutions := Map.empty, networkEnabled := False\<rparr>"

definition hydrated :: world where
  "hydrated = fst (snd (hydrate ''/proj/corepack-yarn-2.2.2.tgz'' fresh))"

text \<open>The machine after \<^verbatim>\<open>prepare yarn@2.2.2 --activate\<close>.\<close>

definition activated :: world where
  "activated = fst (snd (execute sm prepare_activate machine))"

subsection \<open>Observations on runs\<close>

text \<open>The descriptors handed to \<^verbatim>\<open>resolveDescriptor\<close>, in the order of the calls.\<close>

fun resolved :: "event list \<Rightarrow> Descriptor list" where
  "resolved [] = []"
| "resolved (ResolveDescriptor d r # evs) = d # resolved evs"
| "resolved (_ # evs) = resolved evs"

text \<open>
  An observation of the world that no collaborator other than
  \<^verbatim>\<open>activatePackageManager\<close> changes.
\<close>

definition untouched :: "'w collaborators \<Rightarrow> ('w \<Rightarrow> 'a) \<Rightarrow> bool" where
  "untouched c obs =
     ((\<forall>w. obs (snd (getDefaultDescriptors c w)) = obs w)
    \<and> (\<forall>d w. obs (snd (resolveDescriptor c d w)) = obs w)
    \<and> (\<forall>l w. obs (snd (ensurePackageManager c l w)) = obs w)
    \<and> (\<forall>dir w. obs (snd (loadSpec c dir w)) = obs w)
    \<and> (\<forall>w. obs (snd (getInstallFolder c w)) = obs w)
    \<and> (\<forall>opts entries w. obs (snd (tar_c c opts entries w)) = obs w))"

section \<open>Properties\<close>

subsection \<open>The events of a run\<close>

lemmas io_defs = bind_def call_def return_def throw_def lift_def stdout_write_def

lemmas pass_defs = prepareSpec_def pack_def io_defs Let_def

lemmas list_eqs = Cons_eq_append_conv append_eq_Cons_conv

lemma triple: "x = (fst x, fst (snd x), snd (snd x))"
  by simp

lemma prepareLoop_event:
  assumes "prepareLoop c cmd rs w = (res, w', evs)" and "evs = pre @ x # post"
  shows "\<exists>r w1 res1 w2 p q pre0 post0.
           r \<in> set rs \<and> prepareOne c cmd r w1 = (res1, w2, p @ x # q)
         \<and> pre = pre0 @ p \<and> post = q @ post0
         \<and> (res1 = Inr () \<or> (post0 = [] \<and> res = res1 \<and> w' = w2))"
  using assms
proof (induction rs arbitrary: w res w' evs pre post)
  case Nil
  then show ?case by (simp add: return_def)
next
  case (Cons r rs)
  obtain res1 w1 ts where one: "prepareOne c cmd r w = (res1, w1, ts)"
    by (cases "prepareOne c cmd r w") auto
  show ?case
  proof (cases res1)
    case (Inl e)
    with one Cons.prems have "evs = ts" "res = res1" "w' = w1"
      by (simp_all add: bind_def)
    with one Cons.prems(2) Inl show ?thesis
      by (intro exI[of _ r] exI[of _ w] exI[of _ res1] exI[of _ w1] exI[of _ pre] exI[of _ post]
               exI[of _ "[]"]) simp
  next
    case (Inr u)
    obtain res2 w2 ts2 where rest: "prepareLoop c cmd rs w1 = (res2, w2, ts2)"
      by (cases "prepareLoop c cmd rs w1") auto
    with one Inr Cons.prems have evs: "evs = ts @ ts2" and res: "res = res2" "w' = w2"
      by (simp_all add: bind_def)
    from evs Cons.prems(2) have "ts @ ts2 = pre @ x # post" by simp
    then consider (first) us where "ts = pre @ x # us" "post = us @ ts2"
      | (later) us where "pre = ts @ us" "ts2 = us @ x # post"
      by (auto simp: append_eq_append_conv2 append_eq_Cons_conv Cons_eq_append_conv)
    then show ?thesis
    proof cases
      case first
      with one Inr show ?thesis
        by (intro exI[of _ r] exI[of _ w] exI[of _ res1] exI[of _ w1] exI[of _ pre] exI[of _ us]
               exI[of _ "[]"] exI[of _ ts2]) simp
    next
      case later
      from Cons.IH[OF rest later(2)] obtain r' wa resa wb p q pre0 post0 where
        h: "r' \<in> set rs" "prepareOne c cmd r' wa = (resa, wb, p @ x # q)"
           "us = pre0 @ p" "post = q @ post0" "resa = Inr () \<or> (post0 = [] \<and> res2 = resa \<and> w2 = wb)"
        by blast
      with later res show ?thesis
        by (intro exI[of _ r'] exI[of _ wa] exI[of _ resa] exI[of _ wb] exI[of _ p] exI[of _ q]
               exI[of _ "ts @ pre0"] exI[of _ post0]) simp
    qed
  qed
qed

text \<open>The events of one iteration that are not the manifest lookup are events of lines 79 to 104.\<close>

lemma prepareOne_event:
  assumes "prepareOne c cmd r w = (res, w', p @ x # q)" and "\<forall>dir lr. x \<noteq> LoadSpec dir lr"
  shows "\<exists>d w1 g p'. prepareSpec c cmd r d w1 = (res, w', p' @ x # q) \<and> p = g @ p'"
proof -
  obtain rg wg g where gs: "getSpec c cmd r w = (rg, wg, g)"
    by (cases "getSpec c cmd r w") auto
  have shape: "g = [] \<or> (\<exists>lr. g = [LoadSpec (cwd cmd) lr])"
    using gs
    by (auto simp: getSpec_def io_defs
        split: request.splits prod.splits sum.splits LoadSpecResult.splits)
  show ?thesis
  proof (cases rg)
    case (Inl e)
    with gs assms(1) have "g = p @ x # q" by (simp add: prepareOne_def bind_def)
    with shape assms(2) show ?thesis by (auto simp: Cons_eq_append_conv append_eq_Cons_conv)
  next
    case (Inr d)
    obtain r2 w2 ts where ps: "prepareSpec c cmd r d wg = (r2, w2, ts)"
      by (cases "prepareSpec c cmd r d wg") auto
    with gs Inr assms(1) have eq: "g @ ts = p @ x # q" "r2 = res" "w2 = w'"
      by (simp_all add: prepareOne_def bind_def)
    from eq(1) shape assms(2) obtain p' where "p = g @ p'" "ts = p' @ x # q"
      by (auto simp: Cons_eq_append_conv append_eq_Cons_conv)
    with ps eq show ?thesis by blast
  qed
qed

lemma getSpecs_requests:
  assumes "getSpecs c cmd w = (Inr rs, w1, g)" and "\<not> (all cmd \<and> spec cmd \<noteq> None)" and "r \<in> set rs"
  shows "(r = Undefined) = (spec cmd = None \<and> \<not> all cmd)"
  using assms
  by (auto simp: getSpecs_def io_defs requestOfSpec_def
      split: if_splits prod.splits sum.splits option.splits)

lemma getSpecs_events:
  assumes "getSpecs c cmd w = (rs, w1, g)"
  shows "g = [] \<or> (\<exists>r. g = [GetDefaultDescriptors r])"
  using assms
  by (auto simp: getSpecs_def io_defs split: if_splits prod.splits sum.splits)

text \<open>
  Every event of a run, the lookup of the defaults and of the manifest apart, is an event
  of one pass through lines 79 to 104; the events before and after it in that pass are
  before and after it in the run; a pass that throws ends the run.
\<close>

lemma execute_event:
  assumes "execute c cmd w = (res, w', evs)" and "evs = pre @ x # post"
    and "\<forall>r. x \<noteq> GetDefaultDescriptors r" and "\<forall>dir lr. x \<noteq> LoadSpec dir lr"
  shows "\<exists>req d w1 w2 res1 p q pre0 post0.
           prepareSpec c cmd req d w1 = (res1, w2, p @ x # q)
         \<and> pre = pre0 @ p \<and> post = q @ post0
         \<and> (res1 = Inr () \<or> (post0 = [] \<and> res = res1 \<and> w' = w2))
         \<and> (req = Undefined) = (spec cmd = None \<and> \<not> all cmd)"
proof -
  have ok: "\<not> (all cmd \<and> spec cmd \<noteq> None)"
    using assms(1,2) by (auto simp: execute_def throw_def split: if_splits)
  then have ex: "execute c cmd w = bind (getSpecs c cmd) (prepareLoop c cmd) w"
    by (auto simp: execute_def)
  obtain rg wg g where gs: "getSpecs c cmd w = (rg, wg, g)"
    by (cases "getSpecs c cmd w") auto
  note shape = getSpecs_events[OF gs]
  show ?thesis
  proof (cases rg)
    case (Inl e)
    with gs ex assms(1,2) have "g = pre @ x # post" by (simp add: bind_def)
    with shape assms(3) show ?thesis by (auto simp: Cons_eq_append_conv append_eq_Cons_conv)
  next
    case (Inr rs)
    obtain r2 w2 ts where lp: "prepareLoop c cmd rs wg = (r2, w2, ts)"
      by (cases "prepareLoop c cmd rs wg") auto
    with gs Inr ex assms(1,2) have eq: "g @ ts = pre @ x # post" "r2 = res" "w2 = w'"
      by (simp_all add: bind_def)
    from eq(1) shape assms(3) obtain pre1 where pre1: "pre = g @ pre1" "ts = pre1 @ x # post"
      by (auto simp: Cons_eq_append_conv append_eq_Cons_conv)
    from prepareLoop_event[OF lp pre1(2)] obtain r wa resa wb p q pre0 post0 where
      h: "r \<in> set rs" "prepareOne c cmd r wa = (resa, wb, p @ x # q)"
         "pre1 = pre0 @ p" "post = q @ post0" "resa = Inr () \<or> (post0 = [] \<and> r2 = resa \<and> w2 = wb)"
      by blast
    from prepareOne_event[OF h(2) assms(4)] obtain d w1 g' p' where
      k: "prepareSpec c cmd r d w1 = (resa, wb, p' @ x # q)" "p = g' @ p'"
      by blast
    have und: "(r = Undefined) = (spec cmd = None \<and> \<not> all cmd)"
      using getSpecs_requests[OF _ ok h(1)] gs Inr by simp
    from k h pre1 eq und show ?thesis
      by (intro exI[of _ r] exI[of _ d] exI[of _ w1] exI[of _ wb] exI[of _ resa] exI[of _ p']
               exI[of _ q] exI[of _ "g @ pre0 @ g'"] exI[of _ post0]) simp
  qed
qed

subsection \<open>One pass through the loop body\<close>

lemma prepareSpec_activate_ctx:
  assumes "prepareSpec c cmd r d w = (res, w', p @ ActivatePackageManager l a # q)"
  shows "activate cmd \<and> (\<exists>b i. p = [ResolveDescriptor d (Inr (Some l)), GetInstallFolder (Inr b),
                        EnsurePackageManager l (Inr i)])"
  using assms
  by (auto simp: prepareSpec_def pack_def io_defs Let_def
       Cons_eq_append_conv append_eq_Cons_conv
      split: prod.splits sum.splits option.splits if_splits)

lemma prepareSpec_resolve_none:
  assumes "prepareSpec c cmd r d w = (res, w', p @ ResolveDescriptor d' (Inr None) # q)"
  shows "p = [] \<and> q = [] \<and> d' = d \<and> res = Inl (UsageError (resolve_failed_message d))"
  using assms
  by (auto simp: pass_defs list_eqs split: prod.splits sum.splits option.splits if_splits)

lemma prepareSpec_ensure_next:
  assumes "prepareSpec c cmd r d w = (res, w', p @ EnsurePackageManager l (Inr i) # q)"
    and "activate cmd"
  shows "\<exists>a q'. q = ActivatePackageManager l a # q'"
  using assms
  by (auto simp: pass_defs list_eqs split: prod.splits sum.splits option.splits if_splits)

lemma prepareSpec_tar_ctx:
  assumes "prepareSpec c cmd r d w = (res, w', p @ TarCreate opts entries a # q)"
  shows "\<exists>l b i acts.
           p = [ResolveDescriptor d (Inr (Some l)), GetInstallFolder (Inr b),
                EnsurePackageManager l (Inr i)] @ acts
         \<and> (acts = [] \<or> acts = [ActivatePackageManager l (Inr ())])
         \<and> opts = \<lparr>gzip = True, tar_cwd = b, file = fileNameOf c cmd r l\<rparr>
         \<and> entries = [path_relative c b (location i)]
         \<and> \<not> falsy (output cmd)"
  using assms
  by (auto simp: pass_defs list_eqs split: prod.splits sum.splits option.splits if_splits)

lemma prepareSpec_ensure_pack:
  assumes "prepareSpec c cmd r d w = (res, w', p @ EnsurePackageManager l (Inr i) # q)"
    and "\<not> falsy (output cmd)"
  shows "(\<exists>e. q = [ActivatePackageManager l (Inl e)])
       \<or> (\<exists>opts entries a q'. file opts = fileNameOf c cmd r l
            \<and> (q = TarCreate opts entries a # q'
               \<or> q = ActivatePackageManager l (Inr ()) # TarCreate opts entries a # q'))"
  using assms
  by (auto simp: pass_defs list_eqs split: prod.splits sum.splits option.splits if_splits)

lemma prepareSpec_success_ensure:
  assumes "prepareSpec c cmd r d w = (Inr (), w', p @ ResolveDescriptor d' a # q)"
  shows "p = [] \<and> (\<exists>l b i rest. q = GetInstallFolder (Inr b) # EnsurePackageManager l (Inr i) # rest)"
  using assms
  by (auto simp: pass_defs list_eqs split: prod.splits sum.splits option.splits if_splits)

lemma prepareSpec_failure_silent:
  assumes "prepareSpec c cmd r d w = (Inl e, w', evs)"
  shows "StdoutWrite s \<notin> set evs"
  using assms
  by (auto simp: pass_defs split: prod.splits sum.splits option.splits if_splits)

lemma prepareOne_failure_silent:
  assumes "prepareOne c cmd r w = (Inl e, w', evs)"
  shows "StdoutWrite s \<notin> set evs"
proof
  assume "StdoutWrite s \<in> set evs"
  then obtain p q where "evs = p @ StdoutWrite s # q" by (auto dest: split_list)
  with assms prepareOne_event[of c cmd r w "Inl e" w' p "StdoutWrite s" q]
  obtain d w1 p' where "prepareSpec c cmd r d w1 = (Inl e, w', p' @ StdoutWrite s # q)"
    by auto
  from prepareSpec_failure_silent[OF this, of s] show False by simp
qed

lemma prepareSpec_resolved:
  "resolved (snd (snd (prepareSpec c cmd r d w))) = [d]"
  by (auto simp: pass_defs split: prod.splits sum.splits option.splits)

lemma prepareLoop_append:
  "prepareLoop c cmd (rs1 @ rs2) = bind (prepareLoop c cmd rs1) (\<lambda>_. prepareLoop c cmd rs2)"
proof (induction rs1)
  case Nil
  show ?case by (rule ext) (simp add: io_defs split: prod.splits)
next
  case (Cons r rs1)
  show ?case
    by (rule ext) (simp add: Cons bind_def split: prod.splits sum.splits)
qed

lemma prepareLoop_resolved:
  assumes "prepareLoop c cmd (map RequestDescriptor ds) w = (res, w', evs)"
  shows "prefix (resolved evs) ds \<and> (res = Inr () \<longrightarrow> resolved evs = ds)"
  using assms
proof (induction ds arbitrary: w res w' evs)
  case Nil
  then show ?case by (simp add: return_def)
next
  case (Cons d ds)
  have one: "prepareOne c cmd (RequestDescriptor d) w = prepareSpec c cmd (RequestDescriptor d) d w"
    by (simp add: prepareOne_def getSpec_def io_defs split: prod.splits sum.splits)
  obtain r1 w1 ts where ps: "prepareSpec c cmd (RequestDescriptor d) d w = (r1, w1, ts)"
    by (cases "prepareSpec c cmd (RequestDescriptor d) d w") auto
  with prepareSpec_resolved[of c cmd "RequestDescriptor d" d w] have ts: "resolved ts = [d]" by simp
  have app: "resolved (xs @ ys) = resolved xs @ resolved ys" for xs ys
    by (induction xs rule: resolved.induct) simp_all
  show ?case
  proof (cases r1)
    case (Inl e)
    with Cons.prems one ps have "evs = ts" "res = Inl e" by (simp_all add: bind_def)
    with ts show ?thesis by simp
  next
    case (Inr u)
    obtain r2 w2 ts2 where lp: "prepareLoop c cmd (map RequestDescriptor ds) w1 = (r2, w2, ts2)"
      by (cases "prepareLoop c cmd (map RequestDescriptor ds) w1") auto
    with Cons.prems one ps Inr have "evs = ts @ ts2" "res = r2" by (simp_all add: bind_def)
    with Cons.IH[OF lp] ts show ?thesis by (simp add: app)
  qed
qed

text \<open>
  When \<^verbatim>\<open>!this.output\<close> holds (no \<^verbatim>\<open>--output\<close>, \<^verbatim>\<open>--no-output\<close>, or an empty string as
  the path), line 90 skips the export: no run calls \<^verbatim>\<open>tar.c\<close>.
\<close>

lemma falsy_output_writes_no_archive:
  assumes "execute c cmd w = (res, w', evs)" and "falsy (output cmd)"
  shows "TarCreate opts entries a \<notin> set evs"
proof
  assume "TarCreate opts entries a \<in> set evs"
  then obtain pre post where split: "evs = pre @ TarCreate opts entries a # post"
    by (auto dest: split_list)
  from execute_event[OF assms(1) split, simplified] obtain req d w1 w2 res1 p q where
    "prepareSpec c cmd req d w1 = (res1, w2, p @ TarCreate opts entries a # q)"
    by blast
  from prepareSpec_tar_ctx[OF this] assms(2) show False by blast
qed

subsection \<open>What the command leaves alone\<close>

lemma prepareSpec_untouched:
  assumes "untouched c obs" and "\<not> activate cmd"
  shows "obs (fst (snd (prepareSpec c cmd r d w))) = obs w"
proof -
  from assms(1) have u:
    "\<And>d w. obs (snd (resolveDescriptor c d w)) = obs w"
    "\<And>l w. obs (snd (ensurePackageManager c l w)) = obs w"
    "\<And>w. obs (snd (getInstallFolder c w)) = obs w"
    "\<And>opts entries w. obs (snd (tar_c c opts entries w)) = obs w"
    by (simp_all add: untouched_def)
  show ?thesis
    using assms(2)
    by (auto simp: pass_defs split: prod.splits sum.splits option.splits)
       (metis u snd_conv)+
qed

lemma getSpec_untouched:
  assumes "untouched c obs"
  shows "obs (fst (snd (getSpec c cmd r w))) = obs w"
proof -
  from assms have u: "\<And>dir w. obs (snd (loadSpec c dir w)) = obs w"
    by (simp add: untouched_def)
  show ?thesis
    by (auto simp: getSpec_def io_defs
        split: request.splits prod.splits sum.splits LoadSpecResult.splits)
       (metis u snd_conv)+
qed

lemma prepareOne_untouched:
  assumes "untouched c obs" and "\<not> activate cmd"
  shows "obs (fst (snd (prepareOne c cmd r w))) = obs w"
proof -
  obtain rg wg g where gs: "getSpec c cmd r w = (rg, wg, g)"
    by (cases "getSpec c cmd r w") auto
  with getSpec_untouched[OF assms(1), of cmd r w] have wg: "obs wg = obs w" by simp
  show ?thesis
  proof (cases rg)
    case (Inl e)
    with gs wg show ?thesis by (simp add: prepareOne_def bind_def)
  next
    case (Inr d)
    with gs have "fst (snd (prepareOne c cmd r w)) = fst (snd (prepareSpec c cmd r d wg))"
      by (simp add: prepareOne_def bind_def split: prod.splits)
    with prepareSpec_untouched[OF assms, of r d wg] wg show ?thesis by simp
  qed
qed

lemma prepareLoop_untouched:
  assumes "untouched c obs" and "\<not> activate cmd"
  shows "obs (fst (snd (prepareLoop c cmd rs w))) = obs w"
proof (induction rs arbitrary: w)
  case Nil
  show ?case by (simp add: return_def)
next
  case (Cons r rs)
  obtain r1 w1 ts where one: "prepareOne c cmd r w = (r1, w1, ts)"
    by (cases "prepareOne c cmd r w") auto
  with prepareOne_untouched[OF assms, of r w] have w1: "obs w1 = obs w" by simp
  show ?case
  proof (cases r1)
    case (Inl e)
    with one w1 show ?thesis by (simp add: bind_def)
  next
    case (Inr u)
    with one have "fst (snd (prepareLoop c cmd (r # rs) w)) = fst (snd (prepareLoop c cmd rs w1))"
      by (simp add: bind_def split: prod.splits)
    with Cons.IH[of w1] w1 show ?thesis by simp
  qed
qed

lemma execute_untouched:
  assumes "untouched c obs" and "\<not> activate cmd"
  shows "obs (fst (snd (execute c cmd w))) = obs w"
proof (cases "all cmd \<and> spec cmd \<noteq> None")
  case True
  then show ?thesis by (simp add: execute_def throw_def)
next
  case False
  obtain rg wg g where gs: "getSpecs c cmd w = (rg, wg, g)"
    by (cases "getSpecs c cmd w") auto
  from assms(1) have u: "\<And>w. obs (snd (getDefaultDescriptors c w)) = obs w"
    by (simp add: untouched_def)
  have wg: "obs wg = obs w"
    using gs
    by (auto simp: getSpecs_def io_defs split: if_splits prod.splits sum.splits)
       (metis u snd_conv)+
  show ?thesis
  proof (cases rg)
    case (Inl e)
    with gs wg False show ?thesis by (auto simp: execute_def bind_def)
  next
    case (Inr rs)
    with gs False have "fst (snd (execute c cmd w)) = fst (snd (prepareLoop c cmd rs wg))"
      by (auto simp: execute_def bind_def split: prod.splits)
    with prepareLoop_untouched[OF assms, of rs wg] wg show ?thesis by simp
  qed
qed

lemma untouched_sm_activation: "untouched sm activation"
  by (auto simp: untouched_def sm_def sm_getDefaultDescriptors_def sm_resolveDescriptor_def
        queryRegistry_def sm_ensurePackageManager_def sm_loadSpec_def sm_getInstallFolder_def
        sm_tar_c_def
      split: option.splits prod.splits)

subsection \<open>Example runs\<close>

lemma run_yarn_o:
  "snd (snd (execute sm prepare_yarn_o machine)) =
     [ResolveDescriptor \<lparr>Descriptor.name = ''yarn'', range = ''2.2.2''\<rparr>
        (Inr (Some \<lparr>Locator.name = ''yarn'', reference = ''2.2.2''\<rparr>)),
      GetInstallFolder (Inr ''/home/.corepack''),
      EnsurePackageManager \<lparr>Locator.name = ''yarn'', reference = ''2.2.2''\<rparr>
        (Inr \<lparr>location = ''/home/.corepack/yarn/2.2.2''\<rparr>)]
     @ TarCreate \<lparr>gzip = True, tar_cwd = ''/home/.corepack'', file = ''/proj/corepack-yarn-2.2.2.tgz''\<rparr>
         [''yarn/2.2.2''] (Inr ())
     # [StdoutWrite (''Packed /proj/corepack-yarn-2.2.2.tgz'' @ newline)]"
  by code_simp

lemma run_project_o:
  "snd (snd (execute sm prepare_project_o machine)) =
     [LoadSpec ''/proj'' (Inr (Found \<lparr>Descriptor.name = ''yarn'', range = ''1.22.4''\<rparr>)),
      ResolveDescriptor \<lparr>Descriptor.name = ''yarn'', range = ''1.22.4''\<rparr>
        (Inr (Some \<lparr>Locator.name = ''yarn'', reference = ''1.22.4''\<rparr>)),
      GetInstallFolder (Inr ''/home/.corepack''),
      EnsurePackageManager \<lparr>Locator.name = ''yarn'', reference = ''1.22.4''\<rparr>
        (Inr \<lparr>location = ''/home/.corepack/yarn/1.22.4''\<rparr>)]
     @ TarCreate \<lparr>gzip = True, tar_cwd = ''/home/.corepack'', file = ''/proj/corepack-yarn.tgz''\<rparr>
         [''yarn/1.22.4''] (Inr ())
     # [StdoutWrite (''Packed /proj/corepack-yarn.tgz'' @ newline)]"
  by code_simp

lemma run_activate:
  "snd (snd (execute sm prepare_activate machine)) =
     [ResolveDescriptor \<lparr>Descriptor.name = ''yarn'', range = ''2.2.2''\<rparr>
        (Inr (Some \<lparr>Locator.name = ''yarn'', reference = ''2.2.2''\<rparr>)),
      GetInstallFolder (Inr ''/home/.corepack''),
      EnsurePackageManager \<lparr>Locator.name = ''yarn'', reference = ''2.2.2''\<rparr>
        (Inr \<lparr>location = ''/home/.corepack/yarn/2.2.2''\<rparr>),
      ActivatePackageManager \<lparr>Locator.name = ''yarn'', reference = ''2.2.2''\<rparr> (Inr ())]"
  by code_simp

lemma run_named:
  "snd (snd (execute sm prepare_named machine)) =
     [ResolveDescriptor \<lparr>Descriptor.name = ''yarn'', range = ''2.2.2''\<rparr>
        (Inr (Some \<lparr>Locator.name = ''yarn'', reference = ''2.2.2''\<rparr>)),
      GetInstallFolder (Inr ''/home/.corepack''),
      EnsurePackageManager \<lparr>Locator.name = ''yarn'', reference = ''2.2.2''\<rparr>
        (Inr \<lparr>location = ''/home/.corepack/yarn/2.2.2''\<rparr>),
      TarCreate \<lparr>gzip = True, tar_cwd = ''/home/.corepack'', file = ''yarn.tgz''\<rparr>
         [''yarn/2.2.2''] (Inr ()),
      StdoutWrite (json_string ''yarn.tgz'' @ newline)]"
  by code_simp

subsection \<open>The name of the archive\<close>

text \<open>
  C1, as amended. When \<^verbatim>\<open>--output\<close> is given as a flag, every call of \<^verbatim>\<open>tar.c\<close>
  comes after the resolution and the installation of a locator, and the archive is
  \<^verbatim>\<open>corepack-<name>-<reference>.tgz\<close> in the working directory when a descriptor
  argument was given or \<^verbatim>\<open>--all\<close> was used, and \<^verbatim>\<open>corepack-<name>.tgz\<close> when the
  descriptor was found in the project manifest. The test of line 94 is whether the
  request is \<^verbatim>\<open>undefined\<close>; under \<^verbatim>\<open>--all\<close> the requests are the default descriptors,
  none of which the caller asked for, so the archive name has the version without an
  explicit request for it.
\<close>

theorem default_file_name:
  assumes "execute c cmd w = (res, w', evs)"
    and "output cmd = OutputBoolean True"
    and "evs = pre @ TarCreate opts entries a # post"
  shows "\<exists>pre' d l b i acts.
           pre = pre' @ [ResolveDescriptor d (Inr (Some l)), GetInstallFolder (Inr b),
                         EnsurePackageManager l (Inr i)] @ acts
         \<and> (acts = [] \<or> acts = [ActivatePackageManager l (Inr ())])
         \<and> file opts =
             (if spec cmd \<noteq> None \<or> all cmd
              then path_join c (cwd cmd)
                     (''corepack-'' @ Locator.name l @ ''-'' @ reference l @ ''.tgz'')
              else path_join c (cwd cmd) (''corepack-'' @ Locator.name l @ ''.tgz''))"
proof -
  from execute_event[OF assms(1,3), simplified] obtain req d w1 w2 res1 p q pre0 post0 where
    h: "prepareSpec c cmd req d w1 = (res1, w2, p @ TarCreate opts entries a # q)"
       "pre = pre0 @ p" "(req = Undefined) = (spec cmd = None \<and> \<not> all cmd)"
    by blast
  from prepareSpec_tar_ctx[OF h(1)] obtain l b i acts where
    k: "p = [ResolveDescriptor d (Inr (Some l)), GetInstallFolder (Inr b),
             EnsurePackageManager l (Inr i)] @ acts"
       "acts = [] \<or> acts = [ActivatePackageManager l (Inr ())]"
       "opts = \<lparr>gzip = True, tar_cwd = b, file = fileNameOf c cmd req l\<rparr>"
    by blast
  from k(3) h(3) assms(2) have
    "file opts =
       (if spec cmd \<noteq> None \<or> all cmd
        then path_join c (cwd cmd) (''corepack-'' @ Locator.name l @ ''-'' @ reference l @ ''.tgz'')
        else path_join c (cwd cmd) (''corepack-'' @ Locator.name l @ ''.tgz''))"
    by (auto simp: fileNameOf_def)
  with h(2) k(1,2) show ?thesis by blast
qed

text \<open>
  \<^verbatim>\<open>prepare yarn@2.2.2 -o\<close> in \<^verbatim>\<open>/proj\<close> writes \<^verbatim>\<open>/proj/corepack-yarn-2.2.2.tgz\<close>;
  \<^verbatim>\<open>prepare -o\<close> there, where the project asks for yarn 1.22.4, writes
  \<^verbatim>\<open>/proj/corepack-yarn.tgz\<close>.
\<close>

theorem default_file_name_witness:
  "output prepare_yarn_o = OutputBoolean True
   \<and> spec prepare_yarn_o = Some ''yarn@2.2.2''
   \<and> TarCreate \<lparr>gzip = True, tar_cwd = ''/home/.corepack'', file = ''/proj/corepack-yarn-2.2.2.tgz''\<rparr>
         [''yarn/2.2.2''] (Inr ()) \<in> set (snd (snd (execute sm prepare_yarn_o machine)))
   \<and> ''/proj/corepack-yarn-2.2.2.tgz''
       = path_join sm (cwd prepare_yarn_o)
           (''corepack-'' @ Locator.name \<lparr>Locator.name = ''yarn'', reference = ''2.2.2''\<rparr> @ ''-''
              @ reference \<lparr>Locator.name = ''yarn'', reference = ''2.2.2''\<rparr> @ ''.tgz'')
   \<and> output prepare_project_o = OutputBoolean True
   \<and> spec prepare_project_o = None \<and> all prepare_project_o = False
   \<and> TarCreate \<lparr>gzip = True, tar_cwd = ''/home/.corepack'', file = ''/proj/corepack-yarn.tgz''\<rparr>
         [''yarn/1.22.4''] (Inr ()) \<in> set (snd (snd (execute sm prepare_project_o machine)))
   \<and> ''/proj/corepack-yarn.tgz''
       = path_join sm (cwd prepare_project_o)
           (''corepack-'' @ Locator.name \<lparr>Locator.name = ''yarn'', reference = ''1.22.4''\<rparr> @ ''.tgz'')"
proof -
  have out: "output prepare_yarn_o = OutputBoolean True" and sp: "spec prepare_yarn_o = Some ''yarn@2.2.2''"
    by (simp_all add: prepare_yarn_o_def)
  from default_file_name[OF triple out run_yarn_o] obtain pre' d l b i acts where
    h: "[ResolveDescriptor \<lparr>Descriptor.name = ''yarn'', range = ''2.2.2''\<rparr>
          (Inr (Some \<lparr>Locator.name = ''yarn'', reference = ''2.2.2''\<rparr>)),
        GetInstallFolder (Inr ''/home/.corepack''),
        EnsurePackageManager \<lparr>Locator.name = ''yarn'', reference = ''2.2.2''\<rparr>
          (Inr \<lparr>location = ''/home/.corepack/yarn/2.2.2''\<rparr>)]
       = pre' @ [ResolveDescriptor d (Inr (Some l)), GetInstallFolder (Inr b),
                 EnsurePackageManager l (Inr i)] @ acts"
       "acts = [] \<or> acts = [ActivatePackageManager l (Inr ())]"
       "file \<lparr>gzip = True, tar_cwd = ''/home/.corepack'', file = ''/proj/corepack-yarn-2.2.2.tgz''\<rparr>
         = (if spec prepare_yarn_o \<noteq> None \<or> all prepare_yarn_o
            then path_join sm (cwd prepare_yarn_o)
                   (''corepack-'' @ Locator.name l @ ''-'' @ reference l @ ''.tgz'')
            else path_join sm (cwd prepare_yarn_o) (''corepack-'' @ Locator.name l @ ''.tgz''))"
    by blast
  from h(1,2) have l: "l = \<lparr>Locator.name = ''yarn'', reference = ''2.2.2''\<rparr>"
    by (auto simp: list_eqs)
  from h(3) l sp have versioned: "''/proj/corepack-yarn-2.2.2.tgz''
       = path_join sm (cwd prepare_yarn_o)
           (''corepack-'' @ Locator.name \<lparr>Locator.name = ''yarn'', reference = ''2.2.2''\<rparr> @ ''-''
              @ reference \<lparr>Locator.name = ''yarn'', reference = ''2.2.2''\<rparr> @ ''.tgz'')"
    by simp
  have out': "output prepare_project_o = OutputBoolean True" and sp': "spec prepare_project_o = None"
    and al': "all prepare_project_o = False"
    by (simp_all add: prepare_project_o_def)
  from default_file_name[OF triple out' run_project_o] obtain pre'' d' l' b' i' acts' where
    k: "[LoadSpec ''/proj'' (Inr (Found \<lparr>Descriptor.name = ''yarn'', range = ''1.22.4''\<rparr>)),
        ResolveDescriptor \<lparr>Descriptor.name = ''yarn'', range = ''1.22.4''\<rparr>
          (Inr (Some \<lparr>Locator.name = ''yarn'', reference = ''1.22.4''\<rparr>)),
        GetInstallFolder (Inr ''/home/.corepack''),
        EnsurePackageManager \<lparr>Locator.name = ''yarn'', reference = ''1.22.4''\<rparr>
          (Inr \<lparr>location = ''/home/.corepack/yarn/1.22.4''\<rparr>)]
       = pre'' @ [ResolveDescriptor d' (Inr (Some l')), GetInstallFolder (Inr b'),
                 EnsurePackageManager l' (Inr i')] @ acts'"
       "acts' = [] \<or> acts' = [ActivatePackageManager l' (Inr ())]"
       "file \<lparr>gzip = True, tar_cwd = ''/home/.corepack'', file = ''/proj/corepack-yarn.tgz''\<rparr>
         = (if spec prepare_project_o \<noteq> None \<or> all prepare_project_o
            then path_join sm (cwd prepare_project_o)
                   (''corepack-'' @ Locator.name l' @ ''-'' @ reference l' @ ''.tgz'')
            else path_join sm (cwd prepare_project_o) (''corepack-'' @ Locator.name l' @ ''.tgz''))"
    by blast
  from k(1,2) have l': "l' = \<lparr>Locator.name = ''yarn'', reference = ''1.22.4''\<rparr>"
    by (auto simp: list_eqs)
  from k(3) l' sp' al' have versionless: "''/proj/corepack-yarn.tgz''
       = path_join sm (cwd prepare_project_o)
           (''corepack-'' @ Locator.name \<lparr>Locator.name = ''yarn'', reference = ''1.22.4''\<rparr> @ ''.tgz'')"
    by simp
  have in1: "TarCreate \<lparr>gzip = True, tar_cwd = ''/home/.corepack'', file = ''/proj/corepack-yarn-2.2.2.tgz''\<rparr>
         [''yarn/2.2.2''] (Inr ()) \<in> set (snd (snd (execute sm prepare_yarn_o machine)))"
    using run_yarn_o by simp
  have in2: "TarCreate \<lparr>gzip = True, tar_cwd = ''/home/.corepack'', file = ''/proj/corepack-yarn.tgz''\<rparr>
         [''yarn/1.22.4''] (Inr ()) \<in> set (snd (snd (execute sm prepare_project_o machine)))"
    using run_project_o by simp
  show ?thesis
    by (intro conjI out sp in1 versioned out' sp' al' in2 versionless)
qed

text \<open>
  \<^verbatim>\<open>prepare --all -o\<close>: no descriptor was given, the command succeeds, and the archive
  of npm is \<^verbatim>\<open>corepack-npm-6.14.2.tgz\<close>, not \<^verbatim>\<open>corepack-npm.tgz\<close>.
\<close>

theorem default_file_name_counterexample:
  "spec prepare_all_o = None
   \<and> output prepare_all_o = OutputBoolean True
   \<and> fst (execute sm prepare_all_o machine) = Inr ()
   \<and> TarCreate \<lparr>gzip = True, tar_cwd = ''/home/.corepack'', file = ''/proj/corepack-npm-6.14.2.tgz''\<rparr>
        [''npm/6.14.2''] (Inr ()) \<in> set (snd (snd (execute sm prepare_all_o machine)))
   \<and> TarCreate \<lparr>gzip = True, tar_cwd = ''/home/.corepack'', file = ''/proj/corepack-npm.tgz''\<rparr>
        [''npm/6.14.2''] (Inr ()) \<notin> set (snd (snd (execute sm prepare_all_o machine)))"
  by code_simp

subsection \<open>Usage errors\<close>

text \<open>
  C3. When both \<^verbatim>\<open>--all\<close> and a descriptor argument are given, the command throws the
  usage error (exit code 1) at once: the world is the one it started in and no call
  was made, so nothing was resolved, installed, activated, archived or printed.
\<close>

theorem all_with_spec_usage_error:
  assumes "all cmd" and "spec cmd = Some s"
  shows "execute c cmd w = (Inl (UsageError all_with_spec_message), w, [])
         \<and> exitCode (fst (execute c cmd w)) = 1"
  using assms by (simp add: execute_def throw_def exitCode_def)

theorem all_with_spec_usage_error_witness:
  "all prepare_all_and_spec
   \<and> spec prepare_all_and_spec = Some ''yarn@2.2.2''
   \<and> execute sm prepare_all_and_spec machine
       = (Inl (UsageError all_with_spec_message), machine, [])
   \<and> exitCode (fst (execute sm prepare_all_and_spec machine)) = 1"
proof -
  have flags: "all prepare_all_and_spec" "spec prepare_all_and_spec = Some ''yarn@2.2.2''"
    by (simp_all add: prepare_all_and_spec_def)
  from all_with_spec_usage_error[OF flags, of sm machine] flags show ?thesis
    by (simp add: exitCode_def)
qed

text \<open>
  C4. When \<^verbatim>\<open>resolveDescriptor\<close> answers \<^verbatim>\<open>null\<close> for a descriptor, the command fails
  with the usage error that quotes the range and names the manager (exit code 1), and
  that call is the last event of the run: neither \<^verbatim>\<open>ensurePackageManager\<close> nor
  \<^verbatim>\<open>activatePackageManager\<close> nor anything else is called after it.
\<close>

theorem resolution_failure:
  assumes "execute c cmd w = (res, w', evs)"
    and "ResolveDescriptor d (Inr None) \<in> set evs"
  shows "res = Inl (UsageError (''Failed to successfully resolve '' @ apostrophe @ range d @ apostrophe
                       @ '' to a valid '' @ Descriptor.name d @ '' release''))
       \<and> exitCode res = 1
       \<and> (\<exists>pre. evs = pre @ [ResolveDescriptor d (Inr None)])"
proof -
  from assms(2) obtain pre post where split: "evs = pre @ ResolveDescriptor d (Inr None) # post"
    by (auto dest: split_list)
  from execute_event[OF assms(1) split, simplified] obtain req d0 w1 w2 res1 p q pre0 post0 where
    h: "prepareSpec c cmd req d0 w1 = (res1, w2, p @ ResolveDescriptor d (Inr None) # q)"
       "post = q @ post0" "res1 = Inr () \<or> (post0 = [] \<and> res = res1 \<and> w' = w2)"
    by blast
  from prepareSpec_resolve_none[OF h(1)] have
    k: "q = []" "d = d0" "res1 = Inl (UsageError (resolve_failed_message d0))"
    by simp_all
  with h have "post = []" "res = Inl (UsageError (resolve_failed_message d))" by auto
  with split show ?thesis by (simp add: resolve_failed_message_def exitCode_def)
qed

theorem resolution_failure_witness:
  "ResolveDescriptor \<lparr>Descriptor.name = ''yarn'', range = ''^3''\<rparr> (Inr None)
     \<in> set (snd (snd (execute sm prepare_unknown machine)))
   \<and> fst (execute sm prepare_unknown machine)
       = Inl (UsageError (''Failed to successfully resolve '' @ apostrophe @ ''^3'' @ apostrophe
                @ '' to a valid yarn release''))
   \<and> exitCode (fst (execute sm prepare_unknown machine)) = 1
   \<and> snd (snd (execute sm prepare_unknown machine))
       = [ResolveDescriptor \<lparr>Descriptor.name = ''yarn'', range = ''^3''\<rparr> (Inr None)]"
proof -
  have trace: "snd (snd (execute sm prepare_unknown machine))
       = [ResolveDescriptor \<lparr>Descriptor.name = ''yarn'', range = ''^3''\<rparr> (Inr None)]"
    by code_simp
  then have ev: "ResolveDescriptor \<lparr>Descriptor.name = ''yarn'', range = ''^3''\<rparr> (Inr None)
     \<in> set (snd (snd (execute sm prepare_unknown machine)))"
    by simp
  from resolution_failure[OF triple ev] trace ev show ?thesis by (simp add: exitCode_def)
qed

text \<open>
  C5. With no descriptor argument and without \<^verbatim>\<open>--all\<close>, the result of the manifest
  lookup decides the run: \<^verbatim>\<open>NoProject\<close> and \<^verbatim>\<open>NoSpec\<close> each end it with their usage
  error (exit code 1) and nothing but the lookup has happened; \<^verbatim>\<open>Found\<close> continues with
  lines 79 to 104 on exactly the descriptor found, whose resolution is the next call.
\<close>

theorem manifest_lookup_decides:
  assumes "spec cmd = None" and "\<not> all cmd" and "loadSpec c (cwd cmd) w = (Inr lookup, w1)"
  shows "execute c cmd w =
           (case lookup of
              NoProject \<Rightarrow> (Inl (UsageError no_project_message), w1, [LoadSpec (cwd cmd) (Inr NoProject)])
            | NoSpec \<Rightarrow> (Inl (UsageError no_spec_message), w1, [LoadSpec (cwd cmd) (Inr NoSpec)])
            | Found d \<Rightarrow>
                (case prepareSpec c cmd Undefined d w1 of
                   (r, w2, evs) \<Rightarrow> (r, w2, LoadSpec (cwd cmd) (Inr (Found d)) # evs)))
       \<and> (lookup \<in> {NoProject, NoSpec} \<longrightarrow> exitCode (fst (execute c cmd w)) = 1)
       \<and> (\<forall>d. lookup = Found d \<longrightarrow>
            (\<exists>r rest. snd (snd (execute c cmd w))
                        = LoadSpec (cwd cmd) (Inr (Found d)) # ResolveDescriptor d r # rest))"
proof -
  have ex: "execute c cmd w = prepareOne c cmd Undefined w"
    using assms(1,2)
    by (simp add: execute_def getSpecs_def requestOfSpec_def io_defs split: prod.splits sum.splits)
  have first: "\<exists>r rest. snd (snd (prepareSpec c cmd Undefined d w1)) = ResolveDescriptor d r # rest" for d
    by (auto simp: prepareSpec_def io_defs split: prod.splits sum.splits option.splits)
  show ?thesis
  proof (cases lookup)
    case NoProject
    with assms(3) show ?thesis
      by (simp add: ex prepareOne_def getSpec_def io_defs exitCode_def)
  next
    case NoSpec
    with assms(3) show ?thesis
      by (simp add: ex prepareOne_def getSpec_def io_defs exitCode_def)
  next
    case (Found d)
    with assms(3) have run: "execute c cmd w =
        (case prepareSpec c cmd Undefined d w1 of
           (r, w2, evs) \<Rightarrow> (r, w2, LoadSpec (cwd cmd) (Inr (Found d)) # evs))"
      by (simp add: ex prepareOne_def getSpec_def io_defs split: prod.splits)
    from first[of d] obtain r rest where
      "snd (snd (prepareSpec c cmd Undefined d w1)) = ResolveDescriptor d r # rest" by blast
    with run have "snd (snd (execute c cmd w))
        = LoadSpec (cwd cmd) (Inr (Found d)) # ResolveDescriptor d r # rest"
      by (simp split: prod.splits)
    with run Found show ?thesis by simp
  qed
qed

theorem manifest_lookup_decides_witness:
  "spec prepare_bare = None \<and> \<not> all prepare_bare
   \<and> loadSpec sm (cwd prepare_bare) machine = (Inr NoSpec, machine)
   \<and> execute sm prepare_bare machine
       = (Inl (UsageError no_spec_message), machine, [LoadSpec ''/bare'' (Inr NoSpec)])
   \<and> exitCode (fst (execute sm prepare_bare machine)) = 1
   \<and> spec prepare_project_o = None \<and> \<not> all prepare_project_o
   \<and> loadSpec sm (cwd prepare_project_o) machine
       = (Inr (Found \<lparr>Descriptor.name = ''yarn'', range = ''1.22.4''\<rparr>), machine)
   \<and> (\<exists>r rest. snd (snd (execute sm prepare_project_o machine))
         = LoadSpec ''/proj'' (Inr (Found \<lparr>Descriptor.name = ''yarn'', range = ''1.22.4''\<rparr>))
             # ResolveDescriptor \<lparr>Descriptor.name = ''yarn'', range = ''1.22.4''\<rparr> r # rest)"
proof -
  have bare: "spec prepare_bare = None" "\<not> all prepare_bare" "cwd prepare_bare = ''/bare''"
    and proj: "spec prepare_project_o = None" "\<not> all prepare_project_o" "cwd prepare_project_o = ''/proj''"
    by (simp_all add: prepare_bare_def prepare_project_o_def)
  have m: "manifests machine ''/bare'' = NoSpec"
    "manifests machine ''/proj'' = Found \<lparr>Descriptor.name = ''yarn'', range = ''1.22.4''\<rparr>"
    by (simp_all add: machine_def)
  have l1: "loadSpec sm (cwd prepare_bare) machine = (Inr NoSpec, machine)"
    using m bare by (simp add: sm_def sm_loadSpec_def)
  have l2: "loadSpec sm (cwd prepare_project_o) machine
       = (Inr (Found \<lparr>Descriptor.name = ''yarn'', range = ''1.22.4''\<rparr>), machine)"
    using m proj by (simp add: sm_def sm_loadSpec_def)
  note nospec = manifest_lookup_decides[OF bare(1,2) l1]
  note found = manifest_lookup_decides[OF proj(1,2) l2]
  have a1: "execute sm prepare_bare machine
       = (Inl (UsageError no_spec_message), machine, [LoadSpec ''/bare'' (Inr NoSpec)])"
    using nospec[THEN conjunct1] bare(3) by simp
  have a2: "exitCode (fst (execute sm prepare_bare machine)) = 1"
    using nospec[THEN conjunct2, THEN conjunct1] by simp
  have b: "\<exists>r rest. snd (snd (execute sm prepare_project_o machine))
         = LoadSpec ''/proj'' (Inr (Found \<lparr>Descriptor.name = ''yarn'', range = ''1.22.4''\<rparr>))
             # ResolveDescriptor \<lparr>Descriptor.name = ''yarn'', range = ''1.22.4''\<rparr> r # rest"
    using found[THEN conjunct2, THEN conjunct2, rule_format, OF refl] proj(3) by simp
  show ?thesis
    by (intro conjI bare(1,2) proj(1,2) l1 l2 a1 a2 b)
qed

subsection \<open>The archive\<close>

text \<open>
  C6. Every call of \<^verbatim>\<open>tar.c\<close> comes after \<^verbatim>\<open>getInstallFolder\<close> and the successful
  \<^verbatim>\<open>ensurePackageManager\<close> of the resolved locator; it runs in the install folder and
  its one entry is the install location relative to that folder. Where the location is
  \<^verbatim>\<open><install folder>/<name>/<reference>\<close>, as the layout of the install cache has it, the
  entry is \<^verbatim>\<open><name>/<reference>\<close>.
\<close>

theorem archive_paths_relative:
  assumes "execute c cmd w = (res, w', evs)"
    and "evs = pre @ TarCreate opts entries a # post"
  shows "\<exists>pre' d l b i acts.
           pre = pre' @ [ResolveDescriptor d (Inr (Some l)), GetInstallFolder (Inr b),
                         EnsurePackageManager l (Inr i)] @ acts
         \<and> (acts = [] \<or> acts = [ActivatePackageManager l (Inr ())])
         \<and> tar_cwd opts = b
         \<and> entries = [path_relative c b (location i)]
         \<and> (location i = path_join c b (path_join c (Locator.name l) (reference l))
              \<and> path_relative c b (path_join c b (path_join c (Locator.name l) (reference l)))
                  = path_join c (Locator.name l) (reference l)
            \<longrightarrow> entries = [path_join c (Locator.name l) (reference l)])"
proof -
  from execute_event[OF assms(1,2), simplified] obtain req d w1 w2 res1 p q pre0 post0 where
    h: "prepareSpec c cmd req d w1 = (res1, w2, p @ TarCreate opts entries a # q)"
       "pre = pre0 @ p"
    by blast
  from prepareSpec_tar_ctx[OF h(1)] obtain l b i acts where
    k: "p = [ResolveDescriptor d (Inr (Some l)), GetInstallFolder (Inr b),
             EnsurePackageManager l (Inr i)] @ acts"
       "acts = [] \<or> acts = [ActivatePackageManager l (Inr ())]"
       "opts = \<lparr>gzip = True, tar_cwd = b, file = fileNameOf c cmd req l\<rparr>"
       "entries = [path_relative c b (location i)]"
    by blast
  from k(3,4) have
    "tar_cwd opts = b" "entries = [path_relative c b (location i)]"
    "location i = path_join c b (path_join c (Locator.name l) (reference l))
              \<and> path_relative c b (path_join c b (path_join c (Locator.name l) (reference l)))
                  = path_join c (Locator.name l) (reference l)
            \<longrightarrow> entries = [path_join c (Locator.name l) (reference l)]"
    by auto
  with h(2) k(1,2) show ?thesis by blast
qed

theorem archive_paths_relative_witness:
  "TarCreate \<lparr>gzip = True, tar_cwd = ''/home/.corepack'', file = ''/proj/corepack-yarn-2.2.2.tgz''\<rparr>
         [''yarn/2.2.2''] (Inr ()) \<in> set (snd (snd (execute sm prepare_yarn_o machine)))
   \<and> location \<lparr>location = ''/home/.corepack/yarn/2.2.2''\<rparr>
       = path_join sm ''/home/.corepack'' (path_join sm ''yarn'' ''2.2.2'')
   \<and> path_relative sm ''/home/.corepack'' (path_join sm ''/home/.corepack'' (path_join sm ''yarn'' ''2.2.2''))
       = path_join sm ''yarn'' ''2.2.2''
   \<and> [''yarn/2.2.2''] = [path_join sm ''yarn'' ''2.2.2'']"
proof -
  from archive_paths_relative[OF triple run_yarn_o] obtain pre' d l b i acts where
    h: "[ResolveDescriptor \<lparr>Descriptor.name = ''yarn'', range = ''2.2.2''\<rparr>
          (Inr (Some \<lparr>Locator.name = ''yarn'', reference = ''2.2.2''\<rparr>)),
        GetInstallFolder (Inr ''/home/.corepack''),
        EnsurePackageManager \<lparr>Locator.name = ''yarn'', reference = ''2.2.2''\<rparr>
          (Inr \<lparr>location = ''/home/.corepack/yarn/2.2.2''\<rparr>)]
       = pre' @ [ResolveDescriptor d (Inr (Some l)), GetInstallFolder (Inr b),
                 EnsurePackageManager l (Inr i)] @ acts"
       "acts = [] \<or> acts = [ActivatePackageManager l (Inr ())]"
       "location i = path_join sm b (path_join sm (Locator.name l) (reference l))
          \<and> path_relative sm b (path_join sm b (path_join sm (Locator.name l) (reference l)))
              = path_join sm (Locator.name l) (reference l)
        \<longrightarrow> [''yarn/2.2.2''] = [path_join sm (Locator.name l) (reference l)]"
    by blast
  from h(1,2) have v: "l = \<lparr>Locator.name = ''yarn'', reference = ''2.2.2''\<rparr>"
    "b = ''/home/.corepack''" "i = \<lparr>location = ''/home/.corepack/yarn/2.2.2''\<rparr>"
    by (auto simp: list_eqs)
  have loc: "location \<lparr>location = ''/home/.corepack/yarn/2.2.2''\<rparr>
       = path_join sm ''/home/.corepack'' (path_join sm ''yarn'' ''2.2.2'')"
    by (simp add: sm_def posix_join_def)
  have rel: "path_relative sm ''/home/.corepack'' (path_join sm ''/home/.corepack'' (path_join sm ''yarn'' ''2.2.2''))
       = path_join sm ''yarn'' ''2.2.2''"
    by code_simp
  from h(3) v loc rel have "[''yarn/2.2.2''] = [path_join sm ''yarn'' ''2.2.2'']" by simp
  with loc rel run_yarn_o show ?thesis by simp
qed

subsection \<open>Activation\<close>

text \<open>
  C7. A call of \<^verbatim>\<open>activatePackageManager\<close> happens only with \<^verbatim>\<open>--activate\<close>, right
  after the successful \<^verbatim>\<open>ensurePackageManager\<close> of the same locator, which is the
  locator the resolution just returned; with \<^verbatim>\<open>--activate\<close>, every successful
  \<^verbatim>\<open>ensurePackageManager\<close> is followed at once by the activation of its locator; without
  \<^verbatim>\<open>--activate\<close> there is no such call, and whatever part of the world the other
  collaborators leave alone (the activation state is one) is after the command what it
  was before. In a run that succeeds, \<^verbatim>\<open>activatePackageManager\<close> is called if and only if
  \<^verbatim>\<open>--activate\<close> is set and a descriptor was processed.
\<close>

theorem activation_only_on_request:
  assumes "execute c cmd w = (res, w', evs)"
  shows "(\<forall>pre l a post. evs = pre @ ActivatePackageManager l a # post \<longrightarrow>
            activate cmd
          \<and> (\<exists>pre' d b i. pre = pre' @ [ResolveDescriptor d (Inr (Some l)), GetInstallFolder (Inr b),
                                        EnsurePackageManager l (Inr i)]))
       \<and> (activate cmd \<longrightarrow>
            (\<forall>pre l i post. evs = pre @ EnsurePackageManager l (Inr i) # post \<longrightarrow>
               (\<exists>a post'. post = ActivatePackageManager l a # post')))
       \<and> (\<not> activate cmd \<longrightarrow>
            (\<forall>l a. ActivatePackageManager l a \<notin> set evs) \<and> (untouched c obs \<longrightarrow> obs w' = obs w))
       \<and> (res = Inr () \<longrightarrow>
            ((\<exists>l a. ActivatePackageManager l a \<in> set evs)
             \<longleftrightarrow> (activate cmd \<and> (\<exists>d r. ResolveDescriptor d r \<in> set evs))))"
proof (intro conjI allI impI iffI)
  fix pre l a post
  assume split: "evs = pre @ ActivatePackageManager l a # post"
  from execute_event[OF assms split, simplified] obtain req d w1 w2 res1 p q pre0 where
    h: "prepareSpec c cmd req d w1 = (res1, w2, p @ ActivatePackageManager l a # q)" "pre = pre0 @ p"
    by blast
  from prepareSpec_activate_ctx[OF h(1)] h(2) show "activate cmd"
    and "\<exists>pre' d b i. pre = pre' @ [ResolveDescriptor d (Inr (Some l)), GetInstallFolder (Inr b),
                                   EnsurePackageManager l (Inr i)]"
    by auto
next
  fix pre l i post
  assume act: "activate cmd" and split: "evs = pre @ EnsurePackageManager l (Inr i) # post"
  from execute_event[OF assms split, simplified] obtain req d w1 w2 res1 p q post0 where
    h: "prepareSpec c cmd req d w1 = (res1, w2, p @ EnsurePackageManager l (Inr i) # q)"
       "post = q @ post0"
    by blast
  from prepareSpec_ensure_next[OF h(1) act] h(2)
  show "\<exists>a post'. post = ActivatePackageManager l a # post'" by auto
next
  fix l a
  assume no: "\<not> activate cmd"
  show "ActivatePackageManager l a \<notin> set evs"
  proof
    assume "ActivatePackageManager l a \<in> set evs"
    then obtain pre post where split: "evs = pre @ ActivatePackageManager l a # post"
      by (auto dest: split_list)
    from execute_event[OF assms split, simplified] obtain req d w1 w2 res1 p q where
      "prepareSpec c cmd req d w1 = (res1, w2, p @ ActivatePackageManager l a # q)"
      by blast
    from prepareSpec_activate_ctx[OF this] no show False by simp
  qed
next
  assume "\<not> activate cmd" and "untouched c obs"
  with execute_untouched[of c obs cmd w] assms show "obs w' = obs w" by simp
next
  assume "\<exists>l a. ActivatePackageManager l a \<in> set evs"
  then obtain l a pre post where split: "evs = pre @ ActivatePackageManager l a # post"
    by (auto dest: split_list)
  from execute_event[OF assms split, simplified] obtain req d w1 w2 res1 p q pre0 where
    h: "prepareSpec c cmd req d w1 = (res1, w2, p @ ActivatePackageManager l a # q)" "pre = pre0 @ p"
    by blast
  from prepareSpec_activate_ctx[OF h(1)] obtain b i where
    k: "activate cmd" "p = [ResolveDescriptor d (Inr (Some l)), GetInstallFolder (Inr b),
                           EnsurePackageManager l (Inr i)]"
    by blast
  from k(2) h(2) split have "ResolveDescriptor d (Inr (Some l)) \<in> set evs" by simp
  with k(1) show "activate cmd" and "\<exists>d r. ResolveDescriptor d r \<in> set evs"
    by blast+
next
  assume ok: "res = Inr ()" and "activate cmd \<and> (\<exists>d r. ResolveDescriptor d r \<in> set evs)"
  then obtain d r pre post where act: "activate cmd"
    and split: "evs = pre @ ResolveDescriptor d r # post"
    by (auto dest: split_list)
  from execute_event[OF assms split, simplified] obtain req d0 w1 w2 res1 p q pre0 post0 where
    h: "prepareSpec c cmd req d0 w1 = (res1, w2, p @ ResolveDescriptor d r # q)"
       "post = q @ post0" "res1 = Inr () \<or> (post0 = [] \<and> res = res1 \<and> w' = w2)"
    by blast
  from h(3) ok have "res1 = Inr ()" by auto
  with h(1) have "prepareSpec c cmd req d0 w1 = (Inr (), w2, p @ ResolveDescriptor d r # q)" by simp
  from prepareSpec_success_ensure[OF this] obtain l b i rest where
    q: "p = []" "q = GetInstallFolder (Inr b) # EnsurePackageManager l (Inr i) # rest"
    by blast
  from h(1) q have run: "prepareSpec c cmd req d0 w1
      = (res1, w2, [ResolveDescriptor d r, GetInstallFolder (Inr b)] @ EnsurePackageManager l (Inr i) # rest)"
    by simp
  from prepareSpec_ensure_next[OF run act] obtain a rest' where "rest = ActivatePackageManager l a # rest'"
    by blast
  with split h(2) q show "\<exists>l a. ActivatePackageManager l a \<in> set evs" by auto
qed

theorem activation_only_on_request_witness:
  "activate prepare_activate
   \<and> snd (snd (execute sm prepare_activate machine)) =
       [ResolveDescriptor \<lparr>Descriptor.name = ''yarn'', range = ''2.2.2''\<rparr>
          (Inr (Some \<lparr>Locator.name = ''yarn'', reference = ''2.2.2''\<rparr>)),
        GetInstallFolder (Inr ''/home/.corepack''),
        EnsurePackageManager \<lparr>Locator.name = ''yarn'', reference = ''2.2.2''\<rparr>
          (Inr \<lparr>location = ''/home/.corepack/yarn/2.2.2''\<rparr>),
        ActivatePackageManager \<lparr>Locator.name = ''yarn'', reference = ''2.2.2''\<rparr> (Inr ())]
   \<and> (\<exists>pre' d b i.
         [ResolveDescriptor \<lparr>Descriptor.name = ''yarn'', range = ''2.2.2''\<rparr>
            (Inr (Some \<lparr>Locator.name = ''yarn'', reference = ''2.2.2''\<rparr>)),
          GetInstallFolder (Inr ''/home/.corepack''),
          EnsurePackageManager \<lparr>Locator.name = ''yarn'', reference = ''2.2.2''\<rparr>
            (Inr \<lparr>location = ''/home/.corepack/yarn/2.2.2''\<rparr>)]
         = pre' @ [ResolveDescriptor d (Inr (Some \<lparr>Locator.name = ''yarn'', reference = ''2.2.2''\<rparr>)),
                   GetInstallFolder (Inr b),
                   EnsurePackageManager \<lparr>Locator.name = ''yarn'', reference = ''2.2.2''\<rparr> (Inr i)])
   \<and> (\<exists>a post'.
         [ActivatePackageManager \<lparr>Locator.name = ''yarn'', reference = ''2.2.2''\<rparr> (Inr ())]
         = ActivatePackageManager \<lparr>Locator.name = ''yarn'', reference = ''2.2.2''\<rparr> a # post')
   \<and> fst (execute sm prepare_activate machine) = Inr ()
   \<and> (\<exists>l a. ActivatePackageManager l a \<in> set (snd (snd (execute sm prepare_activate machine))))
   \<and> \<not> activate prepare_yarn_o
   \<and> untouched sm activation
   \<and> activation (fst (snd (execute sm prepare_yarn_o machine))) = activation machine
   \<and> ActivatePackageManager \<lparr>Locator.name = ''yarn'', reference = ''2.2.2''\<rparr> (Inr ())
        \<notin> set (snd (snd (execute sm prepare_yarn_o machine)))"
proof -
  note on = activation_only_on_request[OF triple, of sm prepare_activate machine activation]
  note off = activation_only_on_request[OF triple, of sm prepare_yarn_o machine activation]
  have act: "activate prepare_activate" and nact: "\<not> activate prepare_yarn_o"
    by (simp_all add: prepare_activate_def prepare_yarn_o_def)
  have t1: "snd (snd (execute sm prepare_activate machine)) =
       [ResolveDescriptor \<lparr>Descriptor.name = ''yarn'', range = ''2.2.2''\<rparr>
          (Inr (Some \<lparr>Locator.name = ''yarn'', reference = ''2.2.2''\<rparr>)),
        GetInstallFolder (Inr ''/home/.corepack''),
        EnsurePackageManager \<lparr>Locator.name = ''yarn'', reference = ''2.2.2''\<rparr>
          (Inr \<lparr>location = ''/home/.corepack/yarn/2.2.2''\<rparr>)]
       @ ActivatePackageManager \<lparr>Locator.name = ''yarn'', reference = ''2.2.2''\<rparr> (Inr ()) # []"
    using run_activate by simp
  have t2: "snd (snd (execute sm prepare_activate machine)) =
       [ResolveDescriptor \<lparr>Descriptor.name = ''yarn'', range = ''2.2.2''\<rparr>
          (Inr (Some \<lparr>Locator.name = ''yarn'', reference = ''2.2.2''\<rparr>)),
        GetInstallFolder (Inr ''/home/.corepack'')]
       @ EnsurePackageManager \<lparr>Locator.name = ''yarn'', reference = ''2.2.2''\<rparr>
          (Inr \<lparr>location = ''/home/.corepack/yarn/2.2.2''\<rparr>)
       # [ActivatePackageManager \<lparr>Locator.name = ''yarn'', reference = ''2.2.2''\<rparr> (Inr ())]"
    using run_activate by simp
  note a = on[THEN conjunct1, rule_format, OF t1, THEN conjunct2]
  note b = on[THEN conjunct2, THEN conjunct1, rule_format, OF act t2]
  note c = off[THEN conjunct2, THEN conjunct2, THEN conjunct1, rule_format, OF nact,
               THEN conjunct1, rule_format,
               of "\<lparr>Locator.name = ''yarn'', reference = ''2.2.2''\<rparr>" "Inr ()"]
  note d = off[THEN conjunct2, THEN conjunct2, THEN conjunct1, rule_format, OF nact,
               THEN conjunct2, rule_format, OF untouched_sm_activation]
  have ok: "fst (execute sm prepare_activate machine) = Inr ()" by code_simp
  have rs: "\<exists>d r. ResolveDescriptor d r \<in> set (snd (snd (execute sm prepare_activate machine)))"
    using run_activate by auto
  from on[THEN conjunct2, THEN conjunct2, THEN conjunct2, rule_format, OF ok] act rs
  have e: "\<exists>l a. ActivatePackageManager l a \<in> set (snd (snd (execute sm prepare_activate machine)))"
    by blast
  from act nact run_activate a b c d e ok untouched_sm_activation show ?thesis by simp
qed

subsection \<open>An explicit output path\<close>

text \<open>
  C9. When \<^verbatim>\<open>--output\<close> is given a path (a string that is not empty), every call of
  \<^verbatim>\<open>tar.c\<close> writes that very file, and every descriptor that was installed is archived
  there: the successful \<^verbatim>\<open>ensurePackageManager\<close> is followed by \<^verbatim>\<open>tar.c\<close> on that file,
  after the activation if there is one, unless the activation throws. This holds for
  every command, whether the descriptor comes from the argument, from \<^verbatim>\<open>--all\<close> or
  from the manifest.
\<close>

theorem explicit_output_path:
  assumes "execute c cmd w = (res, w', evs)"
    and "output cmd = OutputString path" and "path \<noteq> []"
  shows "(\<forall>pre opts entries a post. evs = pre @ TarCreate opts entries a # post \<longrightarrow> file opts = path)
       \<and> (\<forall>pre l i post. evs = pre @ EnsurePackageManager l (Inr i) # post \<longrightarrow>
            (\<exists>e. post = [ActivatePackageManager l (Inl e)])
          \<or> (\<exists>opts entries a post'. file opts = path
               \<and> (post = TarCreate opts entries a # post'
                  \<or> post = ActivatePackageManager l (Inr ()) # TarCreate opts entries a # post')))"
proof (intro conjI allI impI)
  fix pre opts entries a post
  assume "evs = pre @ TarCreate opts entries a # post"
  from execute_event[OF assms(1) this, simplified] obtain req d w1 w2 res1 p q where
    "prepareSpec c cmd req d w1 = (res1, w2, p @ TarCreate opts entries a # q)"
    by blast
  from prepareSpec_tar_ctx[OF this] assms(2) show "file opts = path"
    by (auto simp: fileNameOf_def)
next
  fix pre l i post
  assume "evs = pre @ EnsurePackageManager l (Inr i) # post"
  from execute_event[OF assms(1) this, simplified] obtain req d w1 w2 res1 p q post0 where
    h: "prepareSpec c cmd req d w1 = (res1, w2, p @ EnsurePackageManager l (Inr i) # q)"
       "post = q @ post0" "res1 = Inr () \<or> post0 = []"
    by blast
  from assms(2,3) have out: "\<not> falsy (output cmd)" "fileNameOf c cmd req l = path"
    by (simp_all add: fileNameOf_def)
  from prepareSpec_ensure_pack[OF h(1) out(1)] consider
    (thrown) e where "q = [ActivatePackageManager l (Inl e)]"
    | (packed) opts entries a q' where "file opts = path"
        "q = TarCreate opts entries a # q'
         \<or> q = ActivatePackageManager l (Inr ()) # TarCreate opts entries a # q'"
    using out(2) by auto
  then show "(\<exists>e. post = [ActivatePackageManager l (Inl e)])
          \<or> (\<exists>opts entries a post'. file opts = path
               \<and> (post = TarCreate opts entries a # post'
                  \<or> post = ActivatePackageManager l (Inr ()) # TarCreate opts entries a # post'))"
  proof cases
    case thrown
    with h(1) have "res1 \<noteq> Inr ()"
      by (auto simp: pass_defs list_eqs split: prod.splits sum.splits option.splits if_splits)
    with h(2,3) thrown show ?thesis by simp
  next
    case packed
    with h(2) show ?thesis by auto
  qed
qed

theorem explicit_output_path_witness:
  "output prepare_named = OutputString ''yarn.tgz''
   \<and> ''yarn.tgz'' \<noteq> []
   \<and> TarCreate \<lparr>gzip = True, tar_cwd = ''/home/.corepack'', file = ''yarn.tgz''\<rparr>
         [''yarn/2.2.2''] (Inr ()) \<in> set (snd (snd (execute sm prepare_named machine)))
   \<and> file \<lparr>gzip = True, tar_cwd = ''/home/.corepack'', file = ''yarn.tgz''\<rparr> = ''yarn.tgz''
   \<and> (\<exists>opts entries a post'. file opts = ''yarn.tgz''
         \<and> [TarCreate \<lparr>gzip = True, tar_cwd = ''/home/.corepack'', file = ''yarn.tgz''\<rparr>
               [''yarn/2.2.2''] (Inr ()),
             StdoutWrite (json_string ''yarn.tgz'' @ newline)] = TarCreate opts entries a # post')"
proof -
  have out: "output prepare_named = OutputString ''yarn.tgz''" and ne: "''yarn.tgz'' \<noteq> []"
    by (simp_all add: prepare_named_def)
  note inst = explicit_output_path[OF triple out ne]
  have t1: "snd (snd (execute sm prepare_named machine)) =
     [ResolveDescriptor \<lparr>Descriptor.name = ''yarn'', range = ''2.2.2''\<rparr>
        (Inr (Some \<lparr>Locator.name = ''yarn'', reference = ''2.2.2''\<rparr>)),
      GetInstallFolder (Inr ''/home/.corepack''),
      EnsurePackageManager \<lparr>Locator.name = ''yarn'', reference = ''2.2.2''\<rparr>
        (Inr \<lparr>location = ''/home/.corepack/yarn/2.2.2''\<rparr>)]
     @ TarCreate \<lparr>gzip = True, tar_cwd = ''/home/.corepack'', file = ''yarn.tgz''\<rparr>
         [''yarn/2.2.2''] (Inr ())
     # [StdoutWrite (json_string ''yarn.tgz'' @ newline)]"
    using run_named by simp
  have t2: "snd (snd (execute sm prepare_named machine)) =
     [ResolveDescriptor \<lparr>Descriptor.name = ''yarn'', range = ''2.2.2''\<rparr>
        (Inr (Some \<lparr>Locator.name = ''yarn'', reference = ''2.2.2''\<rparr>)),
      GetInstallFolder (Inr ''/home/.corepack'')]
     @ EnsurePackageManager \<lparr>Locator.name = ''yarn'', reference = ''2.2.2''\<rparr>
        (Inr \<lparr>location = ''/home/.corepack/yarn/2.2.2''\<rparr>)
     # [TarCreate \<lparr>gzip = True, tar_cwd = ''/home/.corepack'', file = ''yarn.tgz''\<rparr>
         [''yarn/2.2.2''] (Inr ()),
        StdoutWrite (json_string ''yarn.tgz'' @ newline)]"
    using run_named by simp
  from inst[THEN conjunct1, rule_format, OF t1] have a: "file \<lparr>gzip = True, tar_cwd = ''/home/.corepack'', file = ''yarn.tgz''\<rparr> = ''yarn.tgz''"
    by simp
  from inst[THEN conjunct2, rule_format, OF t2] have b: "(\<exists>e. [TarCreate \<lparr>gzip = True, tar_cwd = ''/home/.corepack'', file = ''yarn.tgz''\<rparr>
               [''yarn/2.2.2''] (Inr ()),
             StdoutWrite (json_string ''yarn.tgz'' @ newline)]
               = [ActivatePackageManager \<lparr>Locator.name = ''yarn'', reference = ''2.2.2''\<rparr> (Inl e)])
     \<or> (\<exists>opts entries a post'. file opts = ''yarn.tgz''
         \<and> ([TarCreate \<lparr>gzip = True, tar_cwd = ''/home/.corepack'', file = ''yarn.tgz''\<rparr>
               [''yarn/2.2.2''] (Inr ()),
             StdoutWrite (json_string ''yarn.tgz'' @ newline)] = TarCreate opts entries a # post'
           \<or> [TarCreate \<lparr>gzip = True, tar_cwd = ''/home/.corepack'', file = ''yarn.tgz''\<rparr>
               [''yarn/2.2.2''] (Inr ()),
             StdoutWrite (json_string ''yarn.tgz'' @ newline)]
               = ActivatePackageManager \<lparr>Locator.name = ''yarn'', reference = ''2.2.2''\<rparr> (Inr ())
                   # TarCreate opts entries a # post'))"
    by simp
  then have c: "\<exists>opts entries a post'. file opts = ''yarn.tgz''
         \<and> [TarCreate \<lparr>gzip = True, tar_cwd = ''/home/.corepack'', file = ''yarn.tgz''\<rparr>
               [''yarn/2.2.2''] (Inr ()),
             StdoutWrite (json_string ''yarn.tgz'' @ newline)] = TarCreate opts entries a # post'"
    by auto
  from out ne a c run_named show ?thesis by simp
qed

subsection \<open>The first failure\<close>

text \<open>
  C10. The requests are processed one after the other in the order of the list. When
  the requests before one have succeeded and that one fails, the command fails with its
  error (exit code 1); the events of the run are those of the earlier requests followed
  by those of the failing one, so nothing is done for the later requests; the world is
  the one the failing request left, which holds the work of the earlier ones; the failing
  request has printed nothing; and under \<^verbatim>\<open>--all\<close> the descriptors resolved are, in
  order, a prefix of the list of defaults.
\<close>

theorem first_failure_aborts:
  assumes "\<not> (all cmd \<and> spec cmd \<noteq> None)"
    and "getSpecs c cmd w = (Inr (rs1 @ r # rs2), w0, evs0)"
    and "prepareLoop c cmd rs1 w0 = (Inr (), w1, evs1)"
    and "prepareOne c cmd r w1 = (Inl e, w2, evs2)"
  shows "execute c cmd w = (Inl e, w2, evs0 @ evs1 @ evs2)
       \<and> exitCode (fst (execute c cmd w)) = 1
       \<and> (\<forall>s. StdoutWrite s \<notin> set evs2)
       \<and> (\<forall>ds. rs1 @ r # rs2 = map RequestDescriptor ds \<longrightarrow> prefix (resolved (evs1 @ evs2)) ds)"
proof -
  have loop: "prepareLoop c cmd (rs1 @ r # rs2) w0 = (Inl e, w2, evs1 @ evs2)"
    using assms(3,4) by (simp add: prepareLoop_append bind_def)
  with assms(1,2) have run: "execute c cmd w = (Inl e, w2, evs0 @ evs1 @ evs2)"
    by (auto simp: execute_def bind_def)
  have quiet: "\<forall>s. StdoutWrite s \<notin> set evs2"
    using prepareOne_failure_silent[OF assms(4)] by simp
  have order: "\<forall>ds. rs1 @ r # rs2 = map RequestDescriptor ds \<longrightarrow> prefix (resolved (evs1 @ evs2)) ds"
    using prepareLoop_resolved loop by metis
  from run quiet order show ?thesis by (simp add: exitCode_def)
qed

theorem first_failure_aborts_witness:
  "all prepare_all_o \<and> spec prepare_all_o = None
   \<and> fst (getSpecs sm prepare_all_o stale_machine)
       = Inr ([RequestDescriptor \<lparr>Descriptor.name = ''npm'', range = ''6.14.2''\<rparr>]
              @ RequestDescriptor \<lparr>Descriptor.name = ''yarn'', range = ''9.9.9''\<rparr>
              # [RequestDescriptor \<lparr>Descriptor.name = ''pnpm'', range = ''4.11.6''\<rparr>])
   \<and> fst (execute sm prepare_all_o stale_machine) = Inl (Thrown ''Release not found'')
   \<and> exitCode (fst (execute sm prepare_all_o stale_machine)) = 1
   \<and> resolved (snd (snd (execute sm prepare_all_o stale_machine)))
       = [\<lparr>Descriptor.name = ''npm'', range = ''6.14.2''\<rparr>,
          \<lparr>Descriptor.name = ''yarn'', range = ''9.9.9''\<rparr>]
   \<and> prefix (resolved (snd (snd (prepareLoop sm prepare_all_o
                  [RequestDescriptor \<lparr>Descriptor.name = ''npm'', range = ''6.14.2''\<rparr>]
                  (fst (snd (getSpecs sm prepare_all_o stale_machine)))))
         @ snd (snd (prepareOne sm prepare_all_o
                  (RequestDescriptor \<lparr>Descriptor.name = ''yarn'', range = ''9.9.9''\<rparr>)
                  (fst (snd (prepareLoop sm prepare_all_o
                     [RequestDescriptor \<lparr>Descriptor.name = ''npm'', range = ''6.14.2''\<rparr>]
                     (fst (snd (getSpecs sm prepare_all_o stale_machine))))))))))
        [\<lparr>Descriptor.name = ''npm'', range = ''6.14.2''\<rparr>,
         \<lparr>Descriptor.name = ''yarn'', range = ''9.9.9''\<rparr>,
         \<lparr>Descriptor.name = ''pnpm'', range = ''4.11.6''\<rparr>]
   \<and> snd (snd (execute sm prepare_all_o stale_machine))
       = snd (snd (getSpecs sm prepare_all_o stale_machine))
         @ snd (snd (prepareLoop sm prepare_all_o
                  [RequestDescriptor \<lparr>Descriptor.name = ''npm'', range = ''6.14.2''\<rparr>]
                  (fst (snd (getSpecs sm prepare_all_o stale_machine)))))
         @ snd (snd (prepareOne sm prepare_all_o
                  (RequestDescriptor \<lparr>Descriptor.name = ''yarn'', range = ''9.9.9''\<rparr>)
                  (fst (snd (prepareLoop sm prepare_all_o
                     [RequestDescriptor \<lparr>Descriptor.name = ''npm'', range = ''6.14.2''\<rparr>]
                     (fst (snd (getSpecs sm prepare_all_o stale_machine))))))))"
proof -
  have h1: "\<not> (all prepare_all_o \<and> spec prepare_all_o \<noteq> None)"
    by (simp add: prepare_all_o_def)
  have g: "fst (getSpecs sm prepare_all_o stale_machine)
       = Inr ([RequestDescriptor \<lparr>Descriptor.name = ''npm'', range = ''6.14.2''\<rparr>]
              @ RequestDescriptor \<lparr>Descriptor.name = ''yarn'', range = ''9.9.9''\<rparr>
              # [RequestDescriptor \<lparr>Descriptor.name = ''pnpm'', range = ''4.11.6''\<rparr>])"
    by code_simp
  have l: "fst (prepareLoop sm prepare_all_o
                  [RequestDescriptor \<lparr>Descriptor.name = ''npm'', range = ''6.14.2''\<rparr>]
                  (fst (snd (getSpecs sm prepare_all_o stale_machine)))) = Inr ()"
    by code_simp
  have f: "fst (prepareOne sm prepare_all_o
                  (RequestDescriptor \<lparr>Descriptor.name = ''yarn'', range = ''9.9.9''\<rparr>)
                  (fst (snd (prepareLoop sm prepare_all_o
                     [RequestDescriptor \<lparr>Descriptor.name = ''npm'', range = ''6.14.2''\<rparr>]
                     (fst (snd (getSpecs sm prepare_all_o stale_machine)))))))
           = Inl (Thrown ''Release not found'')"
    by code_simp
  have h2: "getSpecs sm prepare_all_o stale_machine
       = (Inr ([RequestDescriptor \<lparr>Descriptor.name = ''npm'', range = ''6.14.2''\<rparr>]
              @ RequestDescriptor \<lparr>Descriptor.name = ''yarn'', range = ''9.9.9''\<rparr>
              # [RequestDescriptor \<lparr>Descriptor.name = ''pnpm'', range = ''4.11.6''\<rparr>]),
          fst (snd (getSpecs sm prepare_all_o stale_machine)),
          snd (snd (getSpecs sm prepare_all_o stale_machine)))"
    using g triple[of "getSpecs sm prepare_all_o stale_machine"] by simp
  have h3: "prepareLoop sm prepare_all_o
                  [RequestDescriptor \<lparr>Descriptor.name = ''npm'', range = ''6.14.2''\<rparr>]
                  (fst (snd (getSpecs sm prepare_all_o stale_machine)))
       = (Inr (),
          fst (snd (prepareLoop sm prepare_all_o
                  [RequestDescriptor \<lparr>Descriptor.name = ''npm'', range = ''6.14.2''\<rparr>]
                  (fst (snd (getSpecs sm prepare_all_o stale_machine))))),
          snd (snd (prepareLoop sm prepare_all_o
                  [RequestDescriptor \<lparr>Descriptor.name = ''npm'', range = ''6.14.2''\<rparr>]
                  (fst (snd (getSpecs sm prepare_all_o stale_machine))))))"
    using l triple[of "prepareLoop sm prepare_all_o
                  [RequestDescriptor \<lparr>Descriptor.name = ''npm'', range = ''6.14.2''\<rparr>]
                  (fst (snd (getSpecs sm prepare_all_o stale_machine)))"] by simp
  have h4: "prepareOne sm prepare_all_o
                  (RequestDescriptor \<lparr>Descriptor.name = ''yarn'', range = ''9.9.9''\<rparr>)
                  (fst (snd (prepareLoop sm prepare_all_o
                     [RequestDescriptor \<lparr>Descriptor.name = ''npm'', range = ''6.14.2''\<rparr>]
                     (fst (snd (getSpecs sm prepare_all_o stale_machine))))))
       = (Inl (Thrown ''Release not found''),
          fst (snd (prepareOne sm prepare_all_o
                  (RequestDescriptor \<lparr>Descriptor.name = ''yarn'', range = ''9.9.9''\<rparr>)
                  (fst (snd (prepareLoop sm prepare_all_o
                     [RequestDescriptor \<lparr>Descriptor.name = ''npm'', range = ''6.14.2''\<rparr>]
                     (fst (snd (getSpecs sm prepare_all_o stale_machine)))))))),
          snd (snd (prepareOne sm prepare_all_o
                  (RequestDescriptor \<lparr>Descriptor.name = ''yarn'', range = ''9.9.9''\<rparr>)
                  (fst (snd (prepareLoop sm prepare_all_o
                     [RequestDescriptor \<lparr>Descriptor.name = ''npm'', range = ''6.14.2''\<rparr>]
                     (fst (snd (getSpecs sm prepare_all_o stale_machine)))))))))"
    using f triple[of "prepareOne sm prepare_all_o
                  (RequestDescriptor \<lparr>Descriptor.name = ''yarn'', range = ''9.9.9''\<rparr>)
                  (fst (snd (prepareLoop sm prepare_all_o
                     [RequestDescriptor \<lparr>Descriptor.name = ''npm'', range = ''6.14.2''\<rparr>]
                     (fst (snd (getSpecs sm prepare_all_o stale_machine))))))"] by simp
  note inst = first_failure_aborts[OF h1 h2 h3 h4]
  have r: "resolved (snd (snd (execute sm prepare_all_o stale_machine)))
       = [\<lparr>Descriptor.name = ''npm'', range = ''6.14.2''\<rparr>,
          \<lparr>Descriptor.name = ''yarn'', range = ''9.9.9''\<rparr>]"
    by code_simp
  from inst[THEN conjunct1] have e: "fst (execute sm prepare_all_o stale_machine) = Inl (Thrown ''Release not found'')"
    and t: "snd (snd (execute sm prepare_all_o stale_machine))
       = snd (snd (getSpecs sm prepare_all_o stale_machine))
         @ snd (snd (prepareLoop sm prepare_all_o
                  [RequestDescriptor \<lparr>Descriptor.name = ''npm'', range = ''6.14.2''\<rparr>]
                  (fst (snd (getSpecs sm prepare_all_o stale_machine)))))
         @ snd (snd (prepareOne sm prepare_all_o
                  (RequestDescriptor \<lparr>Descriptor.name = ''yarn'', range = ''9.9.9''\<rparr>)
                  (fst (snd (prepareLoop sm prepare_all_o
                     [RequestDescriptor \<lparr>Descriptor.name = ''npm'', range = ''6.14.2''\<rparr>]
                     (fst (snd (getSpecs sm prepare_all_o stale_machine))))))))"
    by simp_all
  have flags: "all prepare_all_o" "spec prepare_all_o = None"
    by (simp_all add: prepare_all_o_def)
  have ds: "[RequestDescriptor \<lparr>Descriptor.name = ''npm'', range = ''6.14.2''\<rparr>]
              @ RequestDescriptor \<lparr>Descriptor.name = ''yarn'', range = ''9.9.9''\<rparr>
              # [RequestDescriptor \<lparr>Descriptor.name = ''pnpm'', range = ''4.11.6''\<rparr>]
            = map RequestDescriptor
                [\<lparr>Descriptor.name = ''npm'', range = ''6.14.2''\<rparr>,
                 \<lparr>Descriptor.name = ''yarn'', range = ''9.9.9''\<rparr>,
                 \<lparr>Descriptor.name = ''pnpm'', range = ''4.11.6''\<rparr>]"
    by simp
  note order = inst[THEN conjunct2, THEN conjunct2, THEN conjunct2, rule_format, OF ds]
  show ?thesis
    by (intro conjI flags g e inst[THEN conjunct2, THEN conjunct1] r order t)
qed


section \<open>Hydration and activation in the world of the specification\<close>

subsection \<open>Paths\<close>

lemma splitOn_nonempty: "splitOn sep s \<noteq> []"
  by (induction s) (auto split: list.splits)

lemma splitOn_append:
  "splitOn sep (a @ sep # b) = splitOn sep a @ splitOn sep b"
proof (induction a)
  case Nil
  show ?case by simp
next
  case (Cons ch a)
  obtain x xs where "splitOn sep a = x # xs"
    using splitOn_nonempty[of sep a] by (cases "splitOn sep a") auto
  with Cons show ?case by simp
qed

lemma splitOn_plain: "sep \<notin> set s \<Longrightarrow> splitOn sep s = [s]"
  by (induction s) auto

lemma segments_append: "segments (a @ ''/'' @ b) = segments a @ segments b"
  by (simp add: segments_def splitOn_append)

lemma segments_plain: "s \<noteq> [] \<Longrightarrow> CHR ''/'' \<notin> set s \<Longrightarrow> segments s = [s]"
  by (simp add: segments_def splitOn_plain)

lemma stripCommon_prefix: "stripCommon xs (xs @ ys) = ([], ys)"
proof (induction xs)
  case Nil
  show ?case by (cases ys) simp_all
next
  case (Cons x xs)
  then show ?case by simp
qed

lemma posix_relative_install:
  assumes "n \<noteq> []" "CHR ''/'' \<notin> set n" "v \<noteq> []" "CHR ''/'' \<notin> set v"
  shows "posix_relative root (posix_join root (n @ ''/'' @ v)) = n @ ''/'' @ v"
proof -
  have "segments (root @ ''/'' @ n @ ''/'' @ v) = segments root @ [n, v]"
    using assms segments_append[of root "n @ ''/'' @ v"] segments_append[of n v]
    by (simp add: segments_plain)
  then show ?thesis
    by (simp add: posix_relative_def posix_join_def stripCommon_prefix)
qed

lemma supported_name_plain:
  "n \<in> set supportedNames \<Longrightarrow> n \<noteq> [] \<and> CHR ''/'' \<notin> set n"
  by (auto simp: supportedNames_def)

lemma exactVersion_plain:
  assumes "exactVersion v"
  shows "v \<noteq> [] \<and> CHR ''/'' \<notin> set v"
proof
  from assms show "v \<noteq> []"
    by (auto simp: exactVersion_def digits_def split: list.splits)
  from assms have "list_all (\<lambda>ch. ch \<in> set versionChars) v" by (simp add: exactVersion_def)
  moreover have "CHR ''/'' \<notin> set versionChars" by (simp add: versionChars_def)
  ultimately show "CHR ''/'' \<notin> set v" by (auto simp: list_all_iff)
qed

lemma parseSpec_name:
  "sm_parseSpec raw source = Inr d \<Longrightarrow> Descriptor.name d \<in> set supportedNames"
  by (auto simp: sm_parseSpec_def Let_def split: list.splits if_splits)

lemma below_segments:
  assumes "n \<noteq> []" "CHR ''/'' \<notin> set n" "v \<noteq> []" "CHR ''/'' \<notin> set v"
    and "below (n @ ''/'' @ v) p"
  shows "\<exists>rest. segments p = n # v # rest"
proof -
  from assms(5) consider "p = n @ ''/'' @ v" | q where "p = (n @ ''/'' @ v) @ ''/'' @ q"
    by (auto simp: below_def prefix_def)
  then show ?thesis
  proof cases
    case 1
    with assms show ?thesis using segments_append[of n v] by (simp add: segments_plain)
  next
    case 2
    with assms show ?thesis
      using segments_append[of "n @ ''/'' @ v" q] segments_append[of n v]
      by (simp add: segments_plain)
  qed
qed

subsection \<open>The engine\<close>

lemma sm_resolve_exact:
  "exactVersion (range d) \<Longrightarrow>
   sm_resolveDescriptor d w = (Inr (Some \<lparr>Locator.name = Descriptor.name d, reference = range d\<rparr>), w)"
  by (simp add: sm_resolveDescriptor_def)

lemma extractInto_marker:
  "map_of (extractInto dir t files) (dir @ ''/'' @ completionMarker) \<noteq> None"
  by (auto simp: extractInto_def map_add_def split: option.splits)

lemma sm_ensure_success:
  assumes "sm_ensurePackageManager l w = (Inr i, w')"
  shows "installed w' l \<and> location i = posix_join (cacheRoot w) (installDir l)
       \<and> cacheRoot w' = cacheRoot w \<and> activation w' = activation w \<and> disk w' = disk w
       \<and> manifests w' = manifests w \<and> programs w' = programs w"
  using assms extractInto_marker[of "installDir l"]
  by (auto simp: sm_ensurePackageManager_def installed_def split: if_splits option.splits prod.splits)

lemma sm_ensure_installed:
  "installed w l \<Longrightarrow>
   sm_ensurePackageManager l w = (Inr \<lparr>location = posix_join (cacheRoot w) (installDir l)\<rparr>, w)"
  by (simp add: sm_ensurePackageManager_def)

lemma execute_single:
  assumes "spec cmd = Some raw" and "\<not> all cmd" and "sm_parseSpec raw ''CLI arguments'' = Inr d"
  shows "execute sm cmd w = prepareSpec sm cmd (RequestString raw) d w"
  using assms
  by (simp add: execute_def getSpecs_def requestOfSpec_def prepareOne_def getSpec_def io_defs sm_def
      split: prod.splits sum.splits)

lemma prepareSpec_sm_success:
  assumes "exactVersion (range d)" and "Descriptor.name d \<in> set supportedNames"
    and "prepareSpec sm cmd req d w = (Inr (), w1, evs)"
    and "l = \<lparr>Locator.name = Descriptor.name d, reference = range d\<rparr>"
  shows "installed w1 l \<and> programs w1 = programs w \<and> manifests w1 = manifests w
       \<and> (activate cmd \<longrightarrow> activation w1 (Locator.name l) = Some l)
       \<and> (\<not> falsy (output cmd) \<longrightarrow> disk w1 (fileNameOf sm cmd req l) = Some (installTree w1 l))"
proof -
  have plain: "Locator.name l \<noteq> []" "CHR ''/'' \<notin> set (Locator.name l)"
    "reference l \<noteq> []" "CHR ''/'' \<notin> set (reference l)"
    using assms(1,2,4) supported_name_plain exactVersion_plain by auto
  have rel: "posix_relative root (posix_join root (installDir l)) = installDir l" for root
    unfolding installDir_def by (rule posix_relative_install[OF plain])
  have res: "resolveDescriptor sm d w = (Inr (Some l), w)"
    using assms(1,4) by (simp add: sm_def sm_resolve_exact)
  obtain re wE where ens: "sm_ensurePackageManager l w = (re, wE)"
    by (cases "sm_ensurePackageManager l w") auto
  from assms(3) res ens obtain i where i: "re = Inr i"
    by (cases re) (auto simp: prepareSpec_def io_defs sm_def sm_getInstallFolder_def)
  note e = sm_ensure_success[OF ens[unfolded i]]
  let ?wA = "if activate cmd then wE\<lparr>activation := (activation wE)(Locator.name l \<mapsto> l)\<rparr> else wE"
  have pk: "pack sm cmd req l (cacheRoot w) i ?wA = (Inr (), w1, drop (if activate cmd then 4 else 3) evs)"
    using assms(3) res ens i
    by (auto simp: prepareSpec_def io_defs sm_def sm_getInstallFolder_def sm_activatePackageManager_def
        split: prod.splits sum.splits)
  have A: "installed ?wA l" "programs ?wA = programs w" "manifests ?wA = manifests w"
    "cacheRoot ?wA = cacheRoot w" "activate cmd \<longrightarrow> activation ?wA (Locator.name l) = Some l"
    using e by (auto simp: installed_def)
  show ?thesis
  proof (cases "falsy (output cmd)")
    case True
    with pk have "w1 = ?wA" by (simp add: pack_def return_def)
    with A True show ?thesis by simp
  next
    case False
    with pk e A(4) have w1: "w1 = ?wA\<lparr>disk := (disk ?wA)(fileNameOf sm cmd req l \<mapsto>
                 filter (\<lambda>(p, _). below (installDir l) p) (cache ?wA))\<rparr>"
      by (auto simp: pack_def io_defs Let_def sm_def sm_tar_c_def rel
          split: prod.splits sum.splits if_splits)
    with A False show ?thesis
      by (auto simp: installed_def installTree_def)
  qed
qed

lemma map_of_filter_key:
  "map_of (filter (\<lambda>(k, _). P k) xs) k = (if P k then map_of xs k else None)"
  by (induction xs) auto

lemma installTree_marker:
  "installed w l \<Longrightarrow> map_of (installTree w l) (installDir l @ ''/'' @ completionMarker) \<noteq> None"
  by (simp add: installed_def installTree_def map_of_filter_key below_def)

lemma installTree_below: "(p, content) \<in> set (installTree w l) \<Longrightarrow> below (installDir l) p"
  by (auto simp: installTree_def)

lemma installTree_idem:
  "cache w' = installTree w l \<Longrightarrow> installTree w' l = installTree w l"
  by (simp add: installTree_def)

lemma hydrate_fresh:
  assumes "installed w1 l"
    and "Locator.name l \<noteq> []" "CHR ''/'' \<notin> set (Locator.name l)"
    and "reference l \<noteq> []" "CHR ''/'' \<notin> set (reference l)"
    and "disk w2 archivePath = Some (installTree w1 l)" and "cache w2 = []"
  shows "hydrate archivePath w2
         = (Inr (), w2\<lparr>cache := installTree w1 l\<rparr>,
            [StdoutWrite (''Hydrated '' @ Locator.name l @ ''@'' @ reference l @ newline)])"
proof -
  note marker = installTree_marker[OF assms(1)]
  then obtain p content rest where arch: "installTree w1 l = (p, content) # rest"
    by (cases "installTree w1 l") auto
  then have "below (installDir l) p"
    using installTree_below[of p content w1 l] by simp
  then obtain more where seg: "segments p = Locator.name l # reference l # more"
    using below_segments[OF assms(2-5), of p] by (auto simp: installDir_def)
  from marker have m: "map_of ((p, content) # rest) (Locator.name l @ ''/'' @ reference l @ ''/'' @ completionMarker) \<noteq> None"
    by (simp add: arch installDir_def)
  show ?thesis
    using assms(6,7) seg m
    by (simp add: hydrate_def arch Let_def del: map_of.simps)
qed

lemma dispatch_installed:
  assumes "effectiveDescriptor None (manifests w dir) w n = d" and "Descriptor.name d = n"
    and "exactVersion (range d)" and "l = \<lparr>Locator.name = Descriptor.name d, reference = range d\<rparr>"
    and "installed w l" and "programs w (installTree w l) args = Some (code, out)"
  shows "dispatch dir None n args w
         = (Inr code, w,
            [LoadSpec dir (Inr (manifests w dir)), ResolveDescriptor d (Inr (Some l)),
             EnsurePackageManager l (Inr \<lparr>location = posix_join (cacheRoot w) (installDir l)\<rparr>)]
            @ [StdoutWrite out])"
  using assms
  by (simp add: dispatch_def io_defs sm_loadSpec_def Let_def sm_resolve_exact sm_ensure_installed
      spawn_def)

subsection \<open>Export, then hydrate\<close>

text \<open>
  C2. Let \<^verbatim>\<open>prepare <name>@<version> -o\<close> succeed, let the project in \<open>dir\<close> ask for that
  version, and let the install it exported answer \<^verbatim>\<open>--version\<close> with its version and exit
  code 0. On a machine with the same disk and the same programs, an empty cache and the
  network disabled, hydrating \<^verbatim>\<open>corepack-<name>-<version>.tgz\<close> succeeds and reports the name and the version;
  the install tree in the new cache is, file by file, the one that was exported; hydration
  made no network access; and dispatching \<^verbatim>\<open><name> --version\<close> then prints the version
  with exit code 0 and leaves the machine as it is, the count of network accesses included.
\<close>

theorem export_hydrate_round_trip:
  assumes "spec cmd = Some raw" and "\<not> all cmd" and "output cmd = OutputBoolean True"
    and "sm_parseSpec raw ''CLI arguments'' = Inr d" and "exactVersion (range d)"
    and "execute sm cmd w = (Inr (), w1, evs)"
    and empty: "cache w2 = []" and offline: "\<not> networkEnabled w2"
    and same: "disk w2 = disk w1" "programs w2 = programs w1"
    and project: "manifests w2 dir = Found d"
    and answers: "programs w1 (installTree w1 \<lparr>Locator.name = Descriptor.name d, reference = range d\<rparr>)
           [''--version''] = Some (0, range d @ newline)"
  shows "\<exists>w3 evs'.
           hydrate (posix_join (cwd cmd)
                     (''corepack-'' @ Descriptor.name d @ ''-'' @ range d @ ''.tgz'')) w2
             = (Inr (), w3, [StdoutWrite (''Hydrated '' @ Descriptor.name d @ ''@'' @ range d @ newline)])
         \<and> installTree w3 \<lparr>Locator.name = Descriptor.name d, reference = range d\<rparr>
             = installTree w1 \<lparr>Locator.name = Descriptor.name d, reference = range d\<rparr>
         \<and> networkAccesses w3 = networkAccesses w2 \<and> \<not> networkEnabled w3
         \<and> dispatch dir None (Descriptor.name d) [''--version''] w3
             = (Inr 0, w3, evs' @ [StdoutWrite (range d @ newline)])
         \<and> dispatchExitCode (fst (dispatch dir None (Descriptor.name d) [''--version''] w3)) = 0"
proof -
  define l where "l = \<lparr>Locator.name = Descriptor.name d, reference = range d\<rparr>"
  have nm: "Descriptor.name d \<in> set supportedNames" by (rule parseSpec_name[OF assms(4)])
  have plain: "Locator.name l \<noteq> []" "CHR ''/'' \<notin> set (Locator.name l)"
    "reference l \<noteq> []" "CHR ''/'' \<notin> set (reference l)"
    using assms(5) nm supported_name_plain exactVersion_plain by (auto simp: l_def)
  have run: "prepareSpec sm cmd (RequestString raw) d w = (Inr (), w1, evs)"
    using execute_single[OF assms(1,2,4)] assms(6) by simp
  from prepareSpec_sm_success[OF assms(5) nm run l_def] assms(3) have
    w1: "installed w1 l" "disk w1 (fileNameOf sm cmd (RequestString raw) l) = Some (installTree w1 l)"
    by simp_all
  have name: "fileNameOf sm cmd (RequestString raw) l
      = posix_join (cwd cmd) (''corepack-'' @ Descriptor.name d @ ''-'' @ range d @ ''.tgz'')"
    using assms(3) by (simp add: fileNameOf_def sm_def l_def)
  define w3 where "w3 = w2\<lparr>cache := installTree w1 l\<rparr>"
  have d2: "disk w2 (posix_join (cwd cmd) (''corepack-'' @ Descriptor.name d @ ''-'' @ range d @ ''.tgz''))
      = Some (installTree w1 l)" and c2: "cache w2 = []"
    using w1(2) name same(1) empty by simp_all
  have hy: "hydrate (posix_join (cwd cmd) (''corepack-'' @ Descriptor.name d @ ''-'' @ range d @ ''.tgz'')) w2
      = (Inr (), w3, [StdoutWrite (''Hydrated '' @ Descriptor.name d @ ''@'' @ range d @ newline)])"
    using hydrate_fresh[OF w1(1) plain d2 c2] by (simp add: w3_def l_def)
  have tree: "installTree w3 l = installTree w1 l"
    by (rule installTree_idem) (simp add: w3_def)
  have inst3: "installed w3 l"
    using installTree_marker[OF w1(1)] by (simp add: installed_def w3_def)
  have eff: "effectiveDescriptor None (manifests w3 dir) w3 (Descriptor.name d) = d"
    using project by (simp add: effectiveDescriptor_def w3_def)
  have prog: "programs w3 (installTree w3 l) [''--version''] = Some (0, range d @ newline)"
    using same(2) answers tree by (simp add: w3_def l_def)
  note dp = dispatch_installed[OF eff refl assms(5) l_def inst3 prog]
  have net: "networkAccesses w3 = networkAccesses w2" "\<not> networkEnabled w3"
    using offline by (simp_all add: w3_def)
  from hy tree net dp show ?thesis
    unfolding l_def by (intro exI[of _ w3] exI conjI) (simp_all add: dispatchExitCode_def)
qed

theorem export_hydrate_round_trip_witness:
  "spec prepare_yarn_o = Some ''yarn@2.2.2''
   \<and> output prepare_yarn_o = OutputBoolean True
   \<and> exactVersion ''2.2.2''
   \<and> fst (execute sm prepare_yarn_o machine) = Inr ()
   \<and> cache fresh = [] \<and> disk fresh = disk exported \<and> programs fresh = programs exported
   \<and> manifests fresh ''/app'' = Found \<lparr>Descriptor.name = ''yarn'', range = ''2.2.2''\<rparr>
   \<and> hydrate ''/proj/corepack-yarn-2.2.2.tgz'' fresh
       = (Inr (), hydrated, [StdoutWrite (''Hydrated yarn@2.2.2'' @ newline)])
   \<and> installTree hydrated \<lparr>Locator.name = ''yarn'', reference = ''2.2.2''\<rparr>
       = installTree exported \<lparr>Locator.name = ''yarn'', reference = ''2.2.2''\<rparr>
   \<and> installTree hydrated \<lparr>Locator.name = ''yarn'', reference = ''2.2.2''\<rparr>
       = [(''yarn/2.2.2/bin/cli.js'', ''print 2.2.2''), (''yarn/2.2.2/.ready'', [])]
   \<and> networkAccesses hydrated = networkAccesses fresh
   \<and> fst (dispatch ''/app'' None ''yarn'' [''--version''] hydrated) = Inr 0
   \<and> fst (snd (dispatch ''/app'' None ''yarn'' [''--version''] hydrated)) = hydrated
   \<and> last (snd (snd (dispatch ''/app'' None ''yarn'' [''--version''] hydrated)))
       = StdoutWrite (''2.2.2'' @ newline)
   \<and> dispatchExitCode (fst (dispatch ''/app'' None ''yarn'' [''--version''] hydrated)) = 0"
proof -
  have h1: "spec prepare_yarn_o = Some ''yarn@2.2.2''" and h2: "\<not> all prepare_yarn_o"
    and h3: "output prepare_yarn_o = OutputBoolean True" and cw: "cwd prepare_yarn_o = ''/proj''"
    by (simp_all add: prepare_yarn_o_def)
  have h4: "sm_parseSpec ''yarn@2.2.2'' ''CLI arguments''
              = Inr \<lparr>Descriptor.name = ''yarn'', range = ''2.2.2''\<rparr>"
    by code_simp
  have ev: "exactVersion ''2.2.2''" by code_simp
  then have h5: "exactVersion (range \<lparr>Descriptor.name = ''yarn'', range = ''2.2.2''\<rparr>)" by simp
  have ok: "fst (execute sm prepare_yarn_o machine) = Inr ()" by code_simp
  have h6: "execute sm prepare_yarn_o machine
              = (Inr (), exported, snd (snd (execute sm prepare_yarn_o machine)))"
    using ok triple[of "execute sm prepare_yarn_o machine"] by (simp add: exported_def)
  have h7: "cache fresh = []" and h8: "\<not> networkEnabled fresh"
    and h9: "disk fresh = disk exported" and h10: "programs fresh = programs exported"
    by (simp_all add: fresh_def)
  have h11: "manifests fresh ''/app'' = Found \<lparr>Descriptor.name = ''yarn'', range = ''2.2.2''\<rparr>"
    by code_simp
  have h12: "programs exported
              (installTree exported
                 \<lparr>Locator.name = Descriptor.name \<lparr>Descriptor.name = ''yarn'', range = ''2.2.2''\<rparr>,
                    reference = range \<lparr>Descriptor.name = ''yarn'', range = ''2.2.2''\<rparr>\<rparr>)
              [''--version'']
            = Some (0, range \<lparr>Descriptor.name = ''yarn'', range = ''2.2.2''\<rparr> @ newline)"
    by code_simp
  from export_hydrate_round_trip[OF h1 h2 h3 h4 h5 h6 h7 h8 h9 h10 h11 h12] obtain w3 evs' where
    r: "hydrate ''/proj/corepack-yarn-2.2.2.tgz'' fresh
          = (Inr (), w3, [StdoutWrite (''Hydrated yarn@2.2.2'' @ newline)])"
       "installTree w3 \<lparr>Locator.name = ''yarn'', reference = ''2.2.2''\<rparr>
          = installTree exported \<lparr>Locator.name = ''yarn'', reference = ''2.2.2''\<rparr>"
       "networkAccesses w3 = networkAccesses fresh"
       "dispatch ''/app'' None ''yarn'' [''--version''] w3
          = (Inr 0, w3, evs' @ [StdoutWrite (''2.2.2'' @ newline)])"
       "dispatchExitCode (fst (dispatch ''/app'' None ''yarn'' [''--version''] w3)) = 0"
    by (auto simp: cw posix_join_def)
  from r(1) have w3: "w3 = hydrated" by (simp add: hydrated_def)
  have tree: "installTree exported \<lparr>Locator.name = ''yarn'', reference = ''2.2.2''\<rparr>
       = [(''yarn/2.2.2/bin/cli.js'', ''print 2.2.2''), (''yarn/2.2.2/.ready'', [])]"
    by code_simp
  from r w3 tree h1 h3 ev ok h7 h9 h10 h11 show ?thesis by simp
qed

subsection \<open>Activate, then dispatch\<close>

text \<open>
  C8. Let \<^verbatim>\<open>prepare <name>@<version> --activate\<close> succeed, and let a later invocation run in
  a directory whose manifest lookup finds no project or no \<^verbatim>\<open>packageManager\<close> field. The
  activation state then holds the locator of that version under the name;
  \<^verbatim>\<open>getDefaultDescriptors\<close> answers exactly one descriptor of that name, the one for that
  version; it resolves to the activated locator; and, the install answering \<^verbatim>\<open>--version\<close>
  with its version, dispatching \<^verbatim>\<open><name> --version\<close> prints the activated version.
\<close>

theorem activation_persists:
  assumes "spec cmd = Some raw" and "\<not> all cmd" and "activate cmd"
    and "sm_parseSpec raw ''CLI arguments'' = Inr d" and "exactVersion (range d)"
    and "execute sm cmd w = (Inr (), w1, evs)"
    and "manifests w1 dir = NoProject \<or> manifests w1 dir = NoSpec"
    and "programs w1 (installTree w1 \<lparr>Locator.name = Descriptor.name d, reference = range d\<rparr>)
           [''--version''] = Some (0, range d @ newline)"
  shows "activation w1 (Descriptor.name d)
           = Some \<lparr>Locator.name = Descriptor.name d, reference = range d\<rparr>
       \<and> (\<exists>ds. sm_getDefaultDescriptors w1 = (Inr ds, w1)
              \<and> filter (\<lambda>d'. Descriptor.name d' = Descriptor.name d) ds = [d])
       \<and> sm_resolveDescriptor d w1
           = (Inr (Some \<lparr>Locator.name = Descriptor.name d, reference = range d\<rparr>), w1)
       \<and> (\<exists>evs'. dispatch dir None (Descriptor.name d) [''--version''] w1
                    = (Inr 0, w1, evs' @ [StdoutWrite (range d @ newline)]))"
proof -
  define l where "l = \<lparr>Locator.name = Descriptor.name d, reference = range d\<rparr>"
  have nm: "Descriptor.name d \<in> set supportedNames" by (rule parseSpec_name[OF assms(4)])
  have run: "prepareSpec sm cmd (RequestString raw) d w = (Inr (), w1, evs)"
    using execute_single[OF assms(1,2,4)] assms(6) by simp
  from prepareSpec_sm_success[OF assms(5) nm run l_def] assms(3) have
    w1: "installed w1 l" "activation w1 (Descriptor.name d) = Some l"
    by (simp_all add: l_def)
  have dd: "defaultDescriptor w1 (Descriptor.name d) = d"
    using w1(2) by (simp add: defaultDescriptor_def l_def)
  have names: "Descriptor.name (defaultDescriptor w1 n) = n" for n
    by (simp add: defaultDescriptor_def)
  have ds: "filter (\<lambda>d'. Descriptor.name d' = Descriptor.name d)
              (map (defaultDescriptor w1) supportedNames) = [d]"
  proof -
    have "filter (\<lambda>d'. Descriptor.name d' = n) (map (defaultDescriptor w1) supportedNames)
            = [defaultDescriptor w1 n]" if "n \<in> set supportedNames" for n
      using that by (auto simp: supportedNames_def names)
    from this[OF nm] dd show ?thesis by simp
  qed
  have eff: "effectiveDescriptor None (manifests w1 dir) w1 (Descriptor.name d) = d"
    using assms(7) dd by (auto simp: effectiveDescriptor_def)
  have prog: "programs w1 (installTree w1 l) [''--version''] = Some (0, range d @ newline)"
    using assms(8) by (simp add: l_def)
  note dp = dispatch_installed[OF eff refl assms(5) l_def w1(1) prog]
  have a: "activation w1 (Descriptor.name d)
           = Some \<lparr>Locator.name = Descriptor.name d, reference = range d\<rparr>"
    using w1(2) by (simp add: l_def)
  have b: "\<exists>ds. sm_getDefaultDescriptors w1 = (Inr ds, w1)
              \<and> filter (\<lambda>d'. Descriptor.name d' = Descriptor.name d) ds = [d]"
    using ds by (simp add: sm_getDefaultDescriptors_def)
  have c: "sm_resolveDescriptor d w1
           = (Inr (Some \<lparr>Locator.name = Descriptor.name d, reference = range d\<rparr>), w1)"
    by (rule sm_resolve_exact[OF assms(5)])
  have e: "\<exists>evs'. dispatch dir None (Descriptor.name d) [''--version''] w1
                    = (Inr 0, w1, evs' @ [StdoutWrite (range d @ newline)])"
    using dp by blast
  from a b c e show ?thesis by blast
qed

theorem activation_persists_witness:
  "spec prepare_activate = Some ''yarn@2.2.2''
   \<and> activate prepare_activate
   \<and> fst (execute sm prepare_activate machine) = Inr ()
   \<and> manifests activated ''/bare'' = NoSpec
   \<and> activation activated ''yarn'' = Some \<lparr>Locator.name = ''yarn'', reference = ''2.2.2''\<rparr>
   \<and> sm_resolveDescriptor \<lparr>Descriptor.name = ''yarn'', range = ''2.2.2''\<rparr> activated
       = (Inr (Some \<lparr>Locator.name = ''yarn'', reference = ''2.2.2''\<rparr>), activated)
   \<and> fst (dispatch ''/bare'' None ''yarn'' [''--version''] activated) = Inr 0
   \<and> last (snd (snd (dispatch ''/bare'' None ''yarn'' [''--version''] activated)))
       = StdoutWrite (''2.2.2'' @ newline)"
proof -
  have h1: "spec prepare_activate = Some ''yarn@2.2.2''" and h2: "\<not> all prepare_activate"
    and h3: "activate prepare_activate"
    by (simp_all add: prepare_activate_def)
  have h4: "sm_parseSpec ''yarn@2.2.2'' ''CLI arguments''
              = Inr \<lparr>Descriptor.name = ''yarn'', range = ''2.2.2''\<rparr>"
    by code_simp
  have "exactVersion ''2.2.2''" by code_simp
  then have h5: "exactVersion (range \<lparr>Descriptor.name = ''yarn'', range = ''2.2.2''\<rparr>)" by simp
  have ok: "fst (execute sm prepare_activate machine) = Inr ()" by code_simp
  have h6: "execute sm prepare_activate machine
              = (Inr (), activated, snd (snd (execute sm prepare_activate machine)))"
    using ok triple[of "execute sm prepare_activate machine"] by (simp add: activated_def)
  have m: "manifests activated ''/bare'' = NoSpec" by code_simp
  then have h7: "manifests activated ''/bare'' = NoProject \<or> manifests activated ''/bare'' = NoSpec"
    by simp
  have h8: "programs activated
              (installTree activated
                 \<lparr>Locator.name = Descriptor.name \<lparr>Descriptor.name = ''yarn'', range = ''2.2.2''\<rparr>,
                    reference = range \<lparr>Descriptor.name = ''yarn'', range = ''2.2.2''\<rparr>\<rparr>)
              [''--version'']
            = Some (0, range \<lparr>Descriptor.name = ''yarn'', range = ''2.2.2''\<rparr> @ newline)"
    by code_simp
  from activation_persists[OF h1 h2 h3 h4 h5 h6 h7 h8] obtain evs' where
    r: "activation activated ''yarn'' = Some \<lparr>Locator.name = ''yarn'', reference = ''2.2.2''\<rparr>"
       "sm_resolveDescriptor \<lparr>Descriptor.name = ''yarn'', range = ''2.2.2''\<rparr> activated
          = (Inr (Some \<lparr>Locator.name = ''yarn'', reference = ''2.2.2''\<rparr>), activated)"
       "dispatch ''/bare'' None ''yarn'' [''--version''] activated
          = (Inr 0, activated, evs' @ [StdoutWrite (''2.2.2'' @ newline)])"
    by auto
  from r h1 h3 ok m show ?thesis by simp
qed

end
